theory Spec2Isabelle
  imports Complex_Main "HOL-Library.Sublist"
begin

text \<open>
  The rate-limit layer of the MailerLite client: the header parser and the retry loop
  of \<^verbatim>\<open>class RateLimitHandler\<close> (\<^verbatim>\<open>src/rateLimit.ts\<close>), and the functions of
  \<^verbatim>\<open>class RateLimitUtils\<close> and \<^verbatim>\<open>class RateLimitBatchProcessor\<close>
  (\<^verbatim>\<open>src/rateLimitUtils.ts\<close>). Asynchronous code runs one step after the other here:
  an awaited call is a function that returns its value or what it throws, and the
  timers, the observers and the clock are recorded in an explicit state.
\<close>

section \<open>JavaScript numbers\<close>

text \<open>
  The fields of a rate-limit state, the handler's options and the batch size are
  JavaScript numbers. The model keeps the values the code can compute from integers:
  \<open>NaN\<close>, the two infinities and the integers. An integer \<open>Num n\<close> stands for the
  double of that value, which is exact for \<open>\<bar>n\<bar> \<le> 2 ^ 53\<close>; the sign of zero is not
  represented. Addition, subtraction and multiplication of integers are exact on
  doubles as long as the result stays in that range, and so are the comparisons, so
  they are computed on \<open>int\<close>. What the parser reads is rounded to a double
  (\<open>Number_of_int\<close> below); sums, differences and products outside that range, and
  fractions, are outside the model.
\<close>

datatype jsnum = NaN | PInf | NInf | Num int

fun js_add :: "jsnum \<Rightarrow> jsnum \<Rightarrow> jsnum" where
  "js_add NaN _ = NaN"
| "js_add _ NaN = NaN"
| "js_add (Num a) (Num b) = Num (a + b)"
| "js_add PInf NInf = NaN"
| "js_add NInf PInf = NaN"
| "js_add PInf _ = PInf"
| "js_add _ PInf = PInf"
| "js_add NInf _ = NInf"
| "js_add _ NInf = NInf"

fun js_neg :: "jsnum \<Rightarrow> jsnum" where
  "js_neg NaN = NaN"
| "js_neg PInf = NInf"
| "js_neg NInf = PInf"
| "js_neg (Num a) = Num (- a)"

definition js_sub :: "jsnum \<Rightarrow> jsnum \<Rightarrow> jsnum" where
  "js_sub a b = js_add a (js_neg b)"

text \<open>The sign of a number that is not \<open>NaN\<close>: \<open>-1\<close>, \<open>0\<close> or \<open>1\<close>.\<close>

fun js_sign :: "jsnum \<Rightarrow> int" where
  "js_sign NaN = 0"
| "js_sign PInf = 1"
| "js_sign NInf = - 1"
| "js_sign (Num a) = sgn a"

definition inf_of_sign :: "int \<Rightarrow> jsnum" where
  "inf_of_sign s = (if s = 0 then NaN else if 0 < s then PInf else NInf)"

fun js_mul :: "jsnum \<Rightarrow> jsnum \<Rightarrow> jsnum" where
  "js_mul NaN _ = NaN"
| "js_mul _ NaN = NaN"
| "js_mul (Num a) (Num b) = Num (a * b)"
| "js_mul a b = inf_of_sign (js_sign a * js_sign b)"

text \<open>Comparisons: every comparison with \<open>NaN\<close> is false.\<close>

fun js_le :: "jsnum \<Rightarrow> jsnum \<Rightarrow> bool" where
  "js_le NaN _ = False"
| "js_le _ NaN = False"
| "js_le (Num a) (Num b) = (a \<le> b)"
| "js_le NInf _ = True"
| "js_le _ PInf = True"
| "js_le _ _ = False"

fun js_lt :: "jsnum \<Rightarrow> jsnum \<Rightarrow> bool" where
  "js_lt NaN _ = False"
| "js_lt _ NaN = False"
| "js_lt (Num a) (Num b) = (a < b)"
| "js_lt PInf _ = False"
| "js_lt _ NInf = False"
| "js_lt _ _ = True"

definition js_ge :: "jsnum \<Rightarrow> jsnum \<Rightarrow> bool" where
  "js_ge a b = js_le b a"

definition js_gt :: "jsnum \<Rightarrow> jsnum \<Rightarrow> bool" where
  "js_gt a b = js_lt b a"

text \<open>\<^verbatim>\<open>Math.max\<close> and \<^verbatim>\<open>Math.min\<close> of two arguments: \<open>NaN\<close> if either is.\<close>

definition Math_max :: "jsnum \<Rightarrow> jsnum \<Rightarrow> jsnum" where
  "Math_max a b = (if a = NaN \<or> b = NaN then NaN else if js_le a b then b else a)"

definition Math_min :: "jsnum \<Rightarrow> jsnum \<Rightarrow> jsnum" where
  "Math_min a b = (if a = NaN \<or> b = NaN then NaN else if js_le a b then a else b)"

text \<open>
  A quotient or a product with \<open>0.1\<close> is not an integer; the source rounds each of them
  at once, so the model has one function for each rounded expression.

  \<^verbatim>\<open>Math.ceil(a / b)\<close>. For integers in the exact range the double quotient is
  within \<open>\<bar>a / b\<bar> / 2 ^ 53 < 1 / \<bar>b\<bar>\<close> of the exact one, which is an integer or at
  least \<open>1 / \<bar>b\<bar>\<close> away from one: both have the same ceiling, and the ceiling is
  taken of the exact quotient. A zero divisor is \<open>+0\<close>.
\<close>

fun Math_ceil_div :: "jsnum \<Rightarrow> jsnum \<Rightarrow> jsnum" where
  "Math_ceil_div NaN _ = NaN"
| "Math_ceil_div _ NaN = NaN"
| "Math_ceil_div (Num a) (Num b) =
     (if b = 0 then inf_of_sign (sgn a) else Num \<lceil>rat_of_int a / rat_of_int b\<rceil>)"
| "Math_ceil_div (Num a) _ = Num 0"
| "Math_ceil_div a (Num b) = inf_of_sign (js_sign a * (if b < 0 then - 1 else 1))"
| "Math_ceil_div _ _ = NaN"

text \<open>
  The other rounded expressions are not exact on doubles, and their roundings are
  modelled: \<open>fl\<close> rounds a rational to the nearest number with a 53-bit significand,
  ties to even. (The exponent range is not limited: the products and quotients of
  integers of the exact range need no more, and \<open>Number_of_int\<close> below does the
  overflow to infinity itself.)
\<close>

function bit_length :: "int \<Rightarrow> int" where
  "bit_length n = (if n \<le> 0 then 0 else 1 + bit_length (n div 2))"
  by pat_completeness auto
termination
  by (relation "measure nat") auto

declare bit_length.simps [simp del]

definition pow2 :: "int \<Rightarrow> rat" where
  "pow2 k = (if 0 \<le> k then 2 ^ nat k else 1 / 2 ^ nat (- k))"

text \<open>The binary exponent \<open>e\<close> of a positive rational: \<open>2 ^ e \<le> x < 2 ^ (e + 1)\<close>.\<close>

definition binary_exponent :: "rat \<Rightarrow> int" where
  "binary_exponent x =
     (let (p, q) = quotient_of x;
          d = bit_length p - bit_length q
      in if pow2 d \<le> x then d else d - 1)"

definition round_half_even :: "rat \<Rightarrow> int" where
  "round_half_even m =
     (let f = \<lfloor>m\<rfloor>; r = m - of_int f
      in if r < 1 / 2 then f else if 1 / 2 < r then f + 1
         else if even f then f else f + 1)"

definition fl :: "rat \<Rightarrow> rat" where
  "fl x =
     (if x = 0 then 0
      else let u = pow2 (binary_exponent \<bar>x\<bar> - 52)
           in sgn x * of_int (round_half_even (\<bar>x\<bar> / u)) * u)"

text \<open>
  \<^verbatim>\<open>Math.floor(a * 0.1)\<close>: the literal is the double nearest to \<open>0.1\<close>, and the product
  is rounded to a double before the floor is taken. (Up to \<open>2 ^ 52\<close> the result is the
  floor of the exact tenth, which is proved below; beyond, the rounded product can
  reach the next integer.)
\<close>

fun Math_floor_tenth :: "jsnum \<Rightarrow> jsnum" where
  "Math_floor_tenth (Num a) = Num \<lfloor>fl (rat_of_int a * fl (1 / 10))\<rfloor>"
| "Math_floor_tenth a = a"

text \<open>
  The number value of an integer, as the engine makes it of a run of digits: the
  nearest double, and an infinity from \<open>2 ^ 1024 - 2 ^ 970\<close> on, which is where the
  rounding reaches \<open>2 ^ 1024\<close>.
\<close>

definition Number_of_int :: "int \<Rightarrow> jsnum" where
  "Number_of_int n =
     (let d = fl (rat_of_int n)
      in if 2 ^ 1024 \<le> \<bar>d\<bar> then inf_of_sign (sgn n) else Num \<lfloor>d\<rfloor>)"

text \<open>
  \<^verbatim>\<open>Math.round((a / b) * 100)\<close>: the quotient is rounded to a double, the product is
  rounded again, and only then \<^verbatim>\<open>Math.round\<close> applies: the nearest integer, a tie
  going up.
\<close>

definition Math_round :: "rat \<Rightarrow> int" where
  "Math_round x = \<lfloor>x + 1 / 2\<rfloor>"

fun Math_round_percent :: "jsnum \<Rightarrow> jsnum \<Rightarrow> jsnum" where
  "Math_round_percent NaN _ = NaN"
| "Math_round_percent _ NaN = NaN"
| "Math_round_percent (Num a) (Num b) =
     (if b = 0 then inf_of_sign (sgn a)
      else Num (Math_round (fl (fl (rat_of_int a / rat_of_int b) * 100))))"
| "Math_round_percent (Num a) _ = Num 0"
| "Math_round_percent a (Num b) = inf_of_sign (js_sign a * (if b < 0 then - 1 else 1))"
| "Math_round_percent _ _ = NaN"

text \<open>
  The decimal text of a number, as a template literal prints it
  (\<^verbatim>\<open>Number::toString\<close>). An integer up to \<open>2 ^ 53\<close> prints with all its digits.
\<close>

definition digit_char :: "nat \<Rightarrow> char" where
  "digit_char d = ''0123456789'' ! d"

fun nat_digits :: "nat \<Rightarrow> string" where
  "nat_digits n = (if n < 10 then [digit_char n] else nat_digits (n div 10) @ [digit_char (n mod 10)])"

declare nat_digits.simps [simp del]

text \<open>
  Beyond \<open>2 ^ 53\<close> the engine prints the shortest run of digits \<open>s\<close>, of \<open>k\<close> digits,
  such that \<open>s * 10 ^ (n - k)\<close> rounds to the number, the closest such \<open>s\<close> if there are
  several: followed by zeros while \<open>n \<le> 21\<close>, and in exponent form from there on.
  \<open>digits_fit x D k\<close> looks for such an \<open>s\<close> of \<open>k\<close> digits for a number \<open>x\<close> of \<open>D\<close>
  digits, among the two multiples of \<open>10 ^ (D - k)\<close> next to \<open>x\<close>. (An integer beyond
  \<open>2 ^ 53\<close> that is no double is no value of the engine; it prints with all its digits.)
\<close>

definition digits_fit :: "int \<Rightarrow> nat \<Rightarrow> nat \<Rightarrow> int option" where
  "digits_fit x D k =
     (let j = D - k; lo = x div 10 ^ j; hi = lo + 1;
          ok_lo = (fl (rat_of_int (lo * 10 ^ j)) = rat_of_int x);
          ok_hi = (hi < 10 ^ k \<and> fl (rat_of_int (hi * 10 ^ j)) = rat_of_int x);
          d_lo = x - lo * 10 ^ j; d_hi = hi * 10 ^ j - x
      in if ok_lo \<and> ok_hi then
           Some (if d_lo < d_hi then lo else if d_hi < d_lo then hi
                 else if even lo then lo else hi)
         else if ok_lo then Some lo
         else if ok_hi then Some hi
         else None)"

fun shortest_digits :: "int \<Rightarrow> nat \<Rightarrow> nat \<Rightarrow> nat \<Rightarrow> (int \<times> nat) option" where
  "shortest_digits x D k 0 = None"
| "shortest_digits x D k (Suc more) =
     (case digits_fit x D k of
        Some s \<Rightarrow> Some (s, k)
      | None \<Rightarrow> shortest_digits x D (Suc k) more)"

definition format_digits :: "int \<Rightarrow> nat \<Rightarrow> nat \<Rightarrow> string" where
  "format_digits s k n =
     (let ds = nat_digits (nat s)
      in if n \<le> 21 then ds @ replicate (n - k) CHR ''0''
         else (case ds of
                 [] \<Rightarrow> []
               | d # rest \<Rightarrow> if rest = [] then [d] else d # CHR ''.'' # rest)
              @ ''e+'' @ nat_digits (n - 1))"

definition positive_toString :: "int \<Rightarrow> string" where
  "positive_toString x =
     (if x \<le> 2 ^ 53 then nat_digits (nat x)
      else
        (let D = length (nat_digits (nat x))
         in if fl (10 ^ D) = rat_of_int x then format_digits 1 1 (D + 1)
            else (case shortest_digits x D 1 D of
                    Some (s, k) \<Rightarrow> format_digits s k D
                  | None \<Rightarrow> nat_digits (nat x))))"

fun js_toString :: "jsnum \<Rightarrow> string" where
  "js_toString NaN = ''NaN''"
| "js_toString PInf = ''Infinity''"
| "js_toString NInf = ''-Infinity''"
| "js_toString (Num n) =
     (if n < 0 then CHR ''-'' # positive_toString (- n) else positive_toString n)"


section \<open>The rate-limit state and the header parser\<close>

text \<open>
  \<^verbatim>\<open>interface RateLimitHeaders { limit, remaining, reset: Date, retryAfter }\<close>.
  A \<^verbatim>\<open>Date\<close> is its time value, the milliseconds since the epoch, which is \<open>NaN\<close> for
  an invalid date.
\<close>

record RateLimitHeaders =
  limit :: jsnum
  remaining :: jsnum
  reset :: jsnum
  retryAfter :: jsnum

text \<open>
  \<^verbatim>\<open>parseInt(s, 10)\<close>: leading white space is skipped, one sign is read, then the
  longest run of decimal digits; no digit gives \<open>NaN\<close>, and the value of the digits
  is rounded to a double. Characters are the Latin-1 code units of a header value.
\<close>

definition is_js_space :: "char \<Rightarrow> bool" where
  "is_js_space c = (of_char c \<in> {9, 10, 11, 12, 13, 32, 160 :: nat})"

definition is_digit :: "char \<Rightarrow> bool" where
  "is_digit c = (48 \<le> (of_char c :: nat) \<and> (of_char c :: nat) \<le> 57)"

definition digit_value :: "char \<Rightarrow> int" where
  "digit_value c = int (of_char c) - 48"

fun digits_value :: "int \<Rightarrow> string \<Rightarrow> int" where
  "digits_value acc [] = acc"
| "digits_value acc (c # cs) = digits_value (10 * acc + digit_value c) cs"

definition parse_digits :: "string \<Rightarrow> int option" where
  "parse_digits s =
     (let z = takeWhile is_digit s
      in if z = [] then None else Some (digits_value 0 z))"

definition parseInt :: "string \<Rightarrow> jsnum" where
  "parseInt s =
     (let t = dropWhile is_js_space s;
          (sign, r) =
            (case t of
               [] \<Rightarrow> (1, [])
             | c # cs \<Rightarrow>
                 if c = CHR ''-'' then (- 1, cs)
                 else if c = CHR ''+'' then (1, cs) else (1, t))
      in case parse_digits r of None \<Rightarrow> NaN | Some v \<Rightarrow> Number_of_int (sign * v))"

text \<open>
  The environment of the code: \<^verbatim>\<open>new Date(string)\<close> and
  \<^verbatim>\<open>Date.prototype.toLocaleTimeString\<close> belong to the JavaScript engine and its
  locale, and the clock is read by \<^verbatim>\<open>new Date()\<close> and \<^verbatim>\<open>Date.now()\<close>. They are
  parameters of the model; \<open>clock k\<close> is the time the \<open>k\<close>-th reading of the clock
  returns.
\<close>

record runtime =
  Date_of_string :: "string \<Rightarrow> jsnum"
  toLocaleTimeString :: "jsnum \<Rightarrow> string"
  clock :: "nat \<Rightarrow> int"

text \<open>
  An HTTP response: its status and its headers, a map from lower-case names to values.
  A header that is absent reads as \<^verbatim>\<open>undefined\<close>, here \<open>None\<close>.
\<close>

record response =
  status :: int
  headers :: "string \<rightharpoonup> string"

text \<open>\<^verbatim>\<open>!v\<close> for a header value: true of \<^verbatim>\<open>undefined\<close> and of the empty string.\<close>

definition js_not :: "string option \<Rightarrow> bool" where
  "js_not v = (case v of None \<Rightarrow> True | Some s \<Rightarrow> s = [])"

definition parseRateLimitHeaders :: "runtime \<Rightarrow> response \<Rightarrow> RateLimitHeaders option" where
  "parseRateLimitHeaders rt resp =
     (let hs = headers resp;
          limit_h = hs ''x-ratelimit-limit'';
          remaining_h = hs ''x-ratelimit-remaining'';
          reset_h = hs ''x-ratelimit-reset'';
          retryAfter_h = hs ''x-ratelimit-retry-after''
      in if js_not limit_h \<or> js_not remaining_h \<or> js_not reset_h \<or> js_not retryAfter_h
         then None
         else Some \<lparr>limit = parseInt (the limit_h),
                    remaining = parseInt (the remaining_h),
                    reset = Date_of_string rt (the reset_h),
                    retryAfter = parseInt (the retryAfter_h)\<rparr>)"

section \<open>RateLimitUtils\<close>

text \<open>
  Each of the functions below reads the clock at most once on any path; \<open>now\<close> is
  that reading.
\<close>

definition getWaitTime :: "int \<Rightarrow> RateLimitHeaders \<Rightarrow> jsnum" where
  "getWaitTime now hdrs =
     (let resetTime = reset hdrs
      in if js_le resetTime (Num now) then Num 0
         else if js_gt (remaining hdrs) (Num 0) then
           (let timeUntilReset = js_sub resetTime (Num now)
            in Math_ceil_div timeUntilReset (remaining hdrs))
         else js_sub resetTime (Num now))"

definition shouldPause :: "RateLimitHeaders \<Rightarrow> jsnum \<Rightarrow> bool" where
  "shouldPause hdrs threshold = js_le (remaining hdrs) threshold"

definition getRateLimitStatus :: "runtime \<Rightarrow> RateLimitHeaders \<Rightarrow> string" where
  "getRateLimitStatus rt hdrs =
     (let remaining_v = remaining hdrs;
          total_count = limit hdrs;
          resetTime = toLocaleTimeString rt (reset hdrs)
      in if remaining_v = Num 0 then
           ''Rate limit reached (0/'' @ js_toString total_count @ ''). Resets at '' @ resetTime
         else if js_le remaining_v (Num 5) then
           ''Rate limit warning: Only '' @ js_toString remaining_v @ ''/'' @ js_toString total_count
             @ '' requests remaining. Resets at '' @ resetTime
         else
           ''Rate limit status: '' @ js_toString remaining_v @ ''/'' @ js_toString total_count
             @ '' requests remaining. Resets at '' @ resetTime)"

definition getRateLimitUsagePercent :: "RateLimitHeaders \<Rightarrow> jsnum" where
  "getRateLimitUsagePercent hdrs =
     (let used = js_sub (limit hdrs) (remaining hdrs)
      in Math_round_percent used (limit hdrs))"

definition calculateBatchDelay :: "int \<Rightarrow> RateLimitHeaders \<Rightarrow> jsnum \<Rightarrow> jsnum" where
  "calculateBatchDelay now hdrs remainingOperations =
     (if js_le (remaining hdrs) (Num 0) then
        Math_max (Num 0) (js_sub (reset hdrs) (Num now))
      else if js_le remainingOperations (remaining hdrs) then Num 0
      else
        (let timeUntilReset = js_sub (reset hdrs) (Num now)
         in if js_le timeUntilReset (Num 0) then Num 0
            else Math_ceil_div timeUntilReset (remaining hdrs)))"

definition willExceedRateLimit :: "RateLimitHeaders \<Rightarrow> jsnum \<Rightarrow> bool" where
  "willExceedRateLimit hdrs additionalRequests = js_lt (remaining hdrs) additionalRequests"



section \<open>Thrown values\<close>

text \<open>
  What an awaited call can throw:
  \<^item> \<open>AxiosError r\<close>: an \<^verbatim>\<open>Error\<close> object that has a \<^verbatim>\<open>response\<close> property; \<open>r\<close> is
    \<open>None\<close> when the property is \<^verbatim>\<open>undefined\<close> (no response was received);
  \<^item> \<open>RateLimitError m h\<close>: an object whose \<^verbatim>\<open>isRateLimitError\<close> is \<^verbatim>\<open>true\<close>, with its
    message and its \<^verbatim>\<open>rateLimitHeaders\<close> (\<open>None\<close> when the property is not set); it
    has no \<^verbatim>\<open>response\<close> property;
  \<^item> \<open>OtherError m\<close>: any other thrown value.
\<close>

datatype js_error =
    AxiosError "response option"
  | RateLimitError string "RateLimitHeaders option"
  | OtherError string

text \<open>\<^verbatim>\<open>error.response\<close>.\<close>

fun error_response :: "js_error \<Rightarrow> response option" where
  "error_response (AxiosError r) = r"
| "error_response _ = None"

text \<open>\<^verbatim>\<open>retryError instanceof Error && "response" in retryError\<close>.\<close>

fun has_response_property :: "js_error \<Rightarrow> bool" where
  "has_response_property (AxiosError _) = True"
| "has_response_property _ = False"

section \<open>RateLimitHandler\<close>

record RateLimitOptions =
  opt_rateLimitRetryAttempts :: "jsnum option"
  opt_rateLimitRetryDelay :: "jsnum option"
  opt_onRateLimitHit :: bool
  opt_onRateLimitRetry :: bool

text \<open>
  The two observers are functions supplied by the caller. The model records whether
  each is set and logs its invocations with their arguments; an observer is taken to
  return normally.
\<close>

record RateLimitHandler =
  rateLimitRetryAttempts :: jsnum
  rateLimitRetryDelay :: jsnum
  onRateLimitHit :: bool
  onRateLimitRetry :: bool

definition new_RateLimitHandler :: "RateLimitOptions \<Rightarrow> RateLimitHandler" where
  "new_RateLimitHandler options =
     \<lparr>rateLimitRetryAttempts =
        (case opt_rateLimitRetryAttempts options of None \<Rightarrow> Num 3 | Some n \<Rightarrow> n),
      rateLimitRetryDelay =
        (case opt_rateLimitRetryDelay options of None \<Rightarrow> Num 1000 | Some d \<Rightarrow> d),
      onRateLimitHit = opt_onRateLimitHit options,
      onRateLimitRetry = opt_onRateLimitRetry options\<rparr>"

text \<open>
  The effects of a call sequence, in the order they happen: the observers' invocations,
  the sleeps with their duration, and the invocations of \<^verbatim>\<open>retryFn\<close>. The state
  counts the invocations of \<^verbatim>\<open>retryFn\<close> and the readings of the clock.
\<close>

datatype handler_event =
    RateLimitHit RateLimitHeaders
  | RateLimitRetry jsnum RateLimitHeaders
  | Sleep jsnum
  | RetryFn

record world =
  calls :: nat
  ticks :: nat
  trace :: "handler_event list"

definition emit :: "handler_event \<Rightarrow> world \<Rightarrow> world" where
  "emit e w = w\<lparr>trace := trace w @ [e]\<rparr>"

text \<open>
  \<^verbatim>\<open>retryFn\<close> reissues the request; \<open>retryFn k\<close> is the outcome of its \<open>k\<close>-th
  invocation (counted from 0): the value it resolves to, or what it throws.
\<close>

definition call_retryFn :: "(nat \<Rightarrow> js_error + 'v) \<Rightarrow> world \<Rightarrow> (js_error + 'v) \<times> world" where
  "call_retryFn retryFn w = (retryFn (calls w), (emit RetryFn w)\<lparr>calls := Suc (calls w)\<rparr>)"

definition isRateLimitError :: "js_error \<Rightarrow> bool" where
  "isRateLimitError error =
     (case error_response error of None \<Rightarrow> False | Some r \<Rightarrow> status r = 429)"

definition createRateLimitError :: "runtime \<Rightarrow> js_error \<Rightarrow> world \<Rightarrow> js_error \<times> world" where
  "createRateLimitError rt error w =
     (let rateLimitHeaders =
            (case error_response error of
               Some r \<Rightarrow> parseRateLimitHeaders rt r
             | None \<Rightarrow> None)
      in case rateLimitHeaders of
           Some h \<Rightarrow>
             (RateLimitError
                (''Rate limit exceeded. '' @ ''Retry after '' @ js_toString (retryAfter h) @ '' seconds.'')
                (Some h), w)
         | None \<Rightarrow>
             (RateLimitError
                (''Rate limit exceeded. '' @ ''Please try again later.'')
                (Some \<lparr>limit = Num 60, remaining = Num 0,
                        reset = Num (clock rt (ticks w) + 60000), retryAfter = Num 60\<rparr>),
              w\<lparr>ticks := Suc (ticks w)\<rparr>))"

text \<open>
  \<^verbatim>\<open>handleRateLimit(error, retryFn, attempt = 0)\<close>. The result is \<open>None\<close> if the call
  sequence never settles, \<open>Some (Inr v, w)\<close> if it resolves to \<open>v\<close> and
  \<open>Some (Inl e, w)\<close> if it throws \<open>e\<close>.
\<close>

partial_function (option) handleRateLimit ::
  "runtime \<Rightarrow> RateLimitHandler \<Rightarrow> (nat \<Rightarrow> js_error + 'v) \<Rightarrow> js_error \<Rightarrow> nat \<Rightarrow> world
     \<Rightarrow> ((js_error + 'v) \<times> world) option" where
  "handleRateLimit rt h retryFn error attempt w =
     (if \<not> isRateLimitError error \<or> js_ge (Num (int attempt)) (rateLimitRetryAttempts h) then
        (case createRateLimitError rt error w of (e, w') \<Rightarrow> Some (Inl e, w'))
      else
        (case (case error_response error of
                 Some r \<Rightarrow> parseRateLimitHeaders rt r
               | None \<Rightarrow> None) of
           Some rateLimitHeaders \<Rightarrow>
             (let w1 = (if onRateLimitHit h \<and> attempt = 0
                        then emit (RateLimitHit rateLimitHeaders) w else w);
                  w2 = (if onRateLimitRetry h
                        then emit (RateLimitRetry (Num (int attempt + 1)) rateLimitHeaders) w1
                        else w1);
                  delayMs = js_add (js_mul (retryAfter rateLimitHeaders) (Num 1000))
                                   (rateLimitRetryDelay h);
                  w3 = emit (Sleep delayMs) w2
              in case call_retryFn retryFn w3 of
                   (Inr v, w4) \<Rightarrow> Some (Inr v, w4)
                 | (Inl retryError, w4) \<Rightarrow>
                     if has_response_property retryError
                     then handleRateLimit rt h retryFn retryError (attempt + 1) w4
                     else Some (Inl retryError, w4))
         | None \<Rightarrow>
             (let fallbackDelay = js_mul (Num (2 ^ attempt)) (rateLimitRetryDelay h);
                  w3 = emit (Sleep fallbackDelay) w
              in case call_retryFn retryFn w3 of
                   (Inr v, w4) \<Rightarrow> Some (Inr v, w4)
                 | (Inl retryError, w4) \<Rightarrow>
                     if has_response_property retryError
                     then handleRateLimit rt h retryFn retryError (attempt + 1) w4
                     else Some (Inl retryError, w4))))"


section \<open>RateLimitUtils on thrown values, and the batch processor\<close>

text \<open>\<^verbatim>\<open>RateLimitUtils.isRateLimitError\<close>: \<^verbatim>\<open>error && error.isRateLimitError === true\<close>.\<close>

fun Utils_isRateLimitError :: "js_error \<Rightarrow> bool" where
  "Utils_isRateLimitError (RateLimitError _ _) = True"
| "Utils_isRateLimitError _ = False"

fun getRateLimitInfo :: "js_error \<Rightarrow> RateLimitHeaders option" where
  "getRateLimitInfo (RateLimitError _ h) = h"
| "getRateLimitInfo _ = None"

text \<open>
  \<^verbatim>\<open>class RateLimitBatchProcessor\<close>: the items and the processor given to the
  constructor, and the two accumulators, which are fields of the instance. The
  processor's outcome for an item is the value it resolves to or what it throws.
\<close>

record ('a, 'r) RateLimitBatchProcessor =
  items :: "'a list"
  processor :: "'a \<Rightarrow> js_error + 'r"
  results :: "'r list"
  errors :: "('a \<times> js_error) list"

definition new_RateLimitBatchProcessor ::
  "'a list \<Rightarrow> ('a \<Rightarrow> js_error + 'r) \<Rightarrow> ('a, 'r) RateLimitBatchProcessor" where
  "new_RateLimitBatchProcessor its p = \<lparr>items = its, processor = p, results = [], errors = []\<rparr>"

text \<open>
  The effects of a run, in order: the invocations of the processor, the invocations of
  \<^verbatim>\<open>onProgress\<close> with their arguments (\<open>None\<close> when called with two arguments), the
  waits of \<^verbatim>\<open>waitForRateLimit\<close> and the 100 ms pauses between batches. The callback
  is optional (the model records whether it is given) and is taken to return normally.
\<close>

datatype 'a batch_event =
    Invoked 'a
  | Progress nat nat "RateLimitHeaders option"
  | Waited jsnum
  | BatchPause

record 'a batch_world =
  bticks :: nat
  btrace :: "'a batch_event list"

definition log_event :: "'a batch_event \<Rightarrow> 'a batch_world \<Rightarrow> 'a batch_world" where
  "log_event e w = w\<lparr>btrace := btrace w @ [e]\<rparr>"

definition waitForRateLimit :: "runtime \<Rightarrow> RateLimitHeaders \<Rightarrow> 'a batch_world \<Rightarrow> 'a batch_world" where
  "waitForRateLimit rt hdrs w =
     (let waitTime = getWaitTime (clock rt (bticks w)) hdrs;
          w' = w\<lparr>bticks := Suc (bticks w)\<rparr>
      in if js_gt waitTime (Num 0) then log_event (Waited waitTime) w' else w')"

text \<open>
  \<^verbatim>\<open>Array.prototype.slice(start, end)\<close>: an index is truncated to an integer, counted
  from the end when negative, and clamped to the array.
\<close>

definition slice_index :: "int \<Rightarrow> jsnum \<Rightarrow> int" where
  "slice_index n v =
     (case v of
        NaN \<Rightarrow> 0
      | NInf \<Rightarrow> 0
      | PInf \<Rightarrow> n
      | Num k \<Rightarrow> if k < 0 then max (n + k) 0 else min k n)"

definition js_slice :: "'a list \<Rightarrow> jsnum \<Rightarrow> jsnum \<Rightarrow> 'a list" where
  "js_slice xs start end_v =
     (let n = int (length xs);
          k = slice_index n start;
          final = slice_index n end_v
      in take (nat (final - k)) (drop (nat k) xs))"

text \<open>
  The state of a run: the instance, the effects so far and the local \<^verbatim>\<open>completed\<close>.
  \<open>process_item\<close> is the body of the inner loop for one item.
\<close>

type_synonym ('a, 'r) run_state = "('a, 'r) RateLimitBatchProcessor \<times> 'a batch_world \<times> nat"

definition process_item ::
  "runtime \<Rightarrow> bool \<Rightarrow> nat \<Rightarrow> 'a \<Rightarrow> ('a, 'r) run_state \<Rightarrow> ('a, 'r) run_state" where
  "process_item rt onProgress total_count item st =
     (case st of (inst, w, completed) \<Rightarrow>
        (let w0 = log_event (Invoked item) w;
             (inst1, w1) =
               (case processor inst item of
                  Inr result \<Rightarrow> (inst\<lparr>results := results inst @ [result]\<rparr>, w0)
                | Inl error \<Rightarrow>
                    (inst\<lparr>errors := errors inst @ [(item, error)]\<rparr>,
                     if Utils_isRateLimitError error then
                       (case getRateLimitInfo error of
                          Some rateLimitInfo \<Rightarrow>
                            waitForRateLimit rt rateLimitInfo
                              (if onProgress
                               then log_event (Progress completed total_count (Some rateLimitInfo)) w0
                               else w0)
                        | None \<Rightarrow> w0)
                     else w0));
             completed1 = completed + 1
         in (inst1,
             if onProgress then log_event (Progress completed1 total_count None) w1 else w1,
             completed1)))"

fun process_batch ::
  "runtime \<Rightarrow> bool \<Rightarrow> nat \<Rightarrow> 'a list \<Rightarrow> ('a, 'r) run_state \<Rightarrow> ('a, 'r) run_state" where
  "process_batch rt onProgress total_count [] st = st"
| "process_batch rt onProgress total_count (item # batch) st =
     process_batch rt onProgress total_count batch (process_item rt onProgress total_count item st)"

text \<open>
  The outer loop \<^verbatim>\<open>for (let i = 0; i < this.items.length; i += batchSize)\<close>. It
  need not end (a batch size of 0 never advances \<open>i\<close>), so the loop is a partial
  function: \<open>None\<close> is a run that never returns.
\<close>

partial_function (option) batch_loop ::
  "runtime \<Rightarrow> bool \<Rightarrow> nat \<Rightarrow> jsnum \<Rightarrow> jsnum \<Rightarrow> ('a, 'r) run_state \<Rightarrow> ('a, 'r) run_state option" where
  "batch_loop rt onProgress total_count batchSize i st =
     (case st of (inst, w, completed) \<Rightarrow>
        if js_lt i (Num (int (length (items inst)))) then
          (let batch = js_slice (items inst) i (js_add i batchSize);
               st1 = process_batch rt onProgress total_count batch st;
               st2 = (case st1 of (inst1, w1, completed1) \<Rightarrow>
                        if js_lt (js_add i batchSize) (Num (int (length (items inst1))))
                        then (inst1, log_event BatchPause w1, completed1)
                        else st1)
           in batch_loop rt onProgress total_count batchSize (js_add i batchSize) st2)
        else Some st)"

text \<open>
  \<^verbatim>\<open>processAll(onProgress?, batchSize = 10)\<close>. The result is the returned pair of
  arrays, with the instance and the effects after the run.
\<close>

definition processAll ::
  "runtime \<Rightarrow> ('a, 'r) RateLimitBatchProcessor \<Rightarrow> bool \<Rightarrow> jsnum option \<Rightarrow> 'a batch_world
     \<Rightarrow> (('r list \<times> ('a \<times> js_error) list) \<times> ('a, 'r) RateLimitBatchProcessor \<times> 'a batch_world) option" where
  "processAll rt inst onProgress batchSize_arg w =
     (let batchSize = (case batchSize_arg of None \<Rightarrow> Num 10 | Some b \<Rightarrow> b);
          total_count = length (items inst)
      in case batch_loop rt onProgress total_count batchSize (Num 0) (inst, w, 0) of
           None \<Rightarrow> None
         | Some (inst', w', completed) \<Rightarrow> Some ((results inst', errors inst'), inst', w'))"


section \<open>The specification's formulas, and inputs for the examples\<close>


text \<open>
  A header value with no leading integer: after the white space and one optional sign
  there is no decimal digit.
\<close>

definition no_leading_integer :: "string \<Rightarrow> bool" where
  "no_leading_integer s =
     (case dropWhile is_js_space s of
        [] \<Rightarrow> True
      | c # cs \<Rightarrow>
          if c = CHR ''-'' \<or> c = CHR ''+''
          then (case cs of [] \<Rightarrow> True | d # _ \<Rightarrow> \<not> is_digit d)
          else \<not> is_digit c)"

text \<open>
  An environment for the examples: an engine that reads one ISO date, prints every
  time the same way, and a clock that starts one minute before that date and advances
  a second at each reading.
\<close>

definition example_runtime :: runtime where
  "example_runtime =
     \<lparr>Date_of_string = (\<lambda>s. if s = ''2024-01-01T12:00:00Z'' then Num 1704110400000 else NaN),
      toLocaleTimeString = (\<lambda>_. ''12:00:00''),
      clock = (\<lambda>k. 1704110340000 + 1000 * int k)\<rparr>"

text \<open>
  A 429 response with the four headers, one without \<^verbatim>\<open>x-ratelimit-remaining\<close>, one
  whose four values are empty, one whose values are words, one whose values are not
  numbers but begin with digits, and a 500 response.
\<close>

definition response_429 :: response where
  "response_429 =
     \<lparr>status = 429,
      headers = [''x-ratelimit-limit'' \<mapsto> ''60'', ''x-ratelimit-remaining'' \<mapsto> ''0'',
                 ''x-ratelimit-reset'' \<mapsto> ''2024-01-01T12:00:00Z'',
                 ''x-ratelimit-retry-after'' \<mapsto> ''30'']\<rparr>"

definition response_no_remaining :: response where
  "response_no_remaining =
     \<lparr>status = 429,
      headers = [''x-ratelimit-limit'' \<mapsto> ''60'',
                 ''x-ratelimit-reset'' \<mapsto> ''2024-01-01T12:00:00Z'',
                 ''x-ratelimit-retry-after'' \<mapsto> ''30'']\<rparr>"

definition response_empty_values :: response where
  "response_empty_values =
     \<lparr>status = 429,
      headers = [''x-ratelimit-limit'' \<mapsto> [], ''x-ratelimit-remaining'' \<mapsto> [],
                 ''x-ratelimit-reset'' \<mapsto> [], ''x-ratelimit-retry-after'' \<mapsto> []]\<rparr>"

definition response_words :: response where
  "response_words =
     \<lparr>status = 429,
      headers = [''x-ratelimit-limit'' \<mapsto> ''sixty'', ''x-ratelimit-remaining'' \<mapsto> ''none'',
                 ''x-ratelimit-reset'' \<mapsto> ''soon'', ''x-ratelimit-retry-after'' \<mapsto> ''-'']\<rparr>"

definition response_prefixed :: response where
  "response_prefixed =
     \<lparr>status = 429,
      headers = [''x-ratelimit-limit'' \<mapsto> ''60 per minute'', ''x-ratelimit-remaining'' \<mapsto> ''12abc'',
                 ''x-ratelimit-reset'' \<mapsto> ''soon'', ''x-ratelimit-retry-after'' \<mapsto> ''30s'']\<rparr>"

definition response_500 :: response where
  "response_500 = \<lparr>status = 500, headers = Map.empty\<rparr>"

definition state_429 :: RateLimitHeaders where
  "state_429 = \<lparr>limit = Num 60, remaining = Num 0, reset = Num 1704110400000, retryAfter = Num 30\<rparr>"


definition default_handler :: RateLimitHandler where
  "default_handler = new_RateLimitHandler
     \<lparr>opt_rateLimitRetryAttempts = None, opt_rateLimitRetryDelay = None,
      opt_onRateLimitHit = True, opt_onRateLimitRetry = True\<rparr>"

definition fresh_world :: world where
  "fresh_world = \<lparr>calls = 0, ticks = 0, trace = []\<rparr>"

text \<open>
  The delay before a retry when the headers are present, as the specification words it:
  retryAfterSeconds * 1000 + baseDelay.
\<close>

definition retry_delay :: "RateLimitHandler \<Rightarrow> RateLimitHeaders \<Rightarrow> jsnum" where
  "retry_delay h s = js_add (js_mul (retryAfter s) (Num 1000)) (rateLimitRetryDelay h)"

text \<open>
  What a run of the batch processor is expected to collect from a list of items: the
  values of the items that succeed, in order, and the pairs of an item that fails and
  its error, in order; and the states carried by the rate-limit errors among them.
\<close>

fun successes :: "('a \<Rightarrow> js_error + 'r) \<Rightarrow> 'a list \<Rightarrow> 'r list" where
  "successes p [] = []"
| "successes p (x # xs) =
     (case p x of Inr v \<Rightarrow> v # successes p xs | Inl e \<Rightarrow> successes p xs)"

fun failures :: "('a \<Rightarrow> js_error + 'r) \<Rightarrow> 'a list \<Rightarrow> ('a \<times> js_error) list" where
  "failures p [] = []"
| "failures p (x # xs) =
     (case p x of Inr v \<Rightarrow> failures p xs | Inl e \<Rightarrow> (x, e) # failures p xs)"

fun rate_limited :: "('a \<Rightarrow> js_error + 'r) \<Rightarrow> 'a list \<Rightarrow> RateLimitHeaders list" where
  "rate_limited p [] = []"
| "rate_limited p (x # xs) =
     (case p x of
        Inl (RateLimitError m (Some info)) \<Rightarrow> info # rate_limited p xs
      | _ \<Rightarrow> rate_limited p xs)"

text \<open>
  Readings of the log of a run: the items the processor was invoked on, the
  \<^verbatim>\<open>(completed, total)\<close> pairs of the progress calls that follow an item, the states of
  the progress calls that announce a rate-limit error, the invocations of the processor
  together with the progress calls that follow an item, and all progress calls.
\<close>

fun invocations :: "'a batch_event list \<Rightarrow> 'a list" where
  "invocations [] = []"
| "invocations (Invoked x # es) = x # invocations es"
| "invocations (e # es) = invocations es"

fun item_progress :: "'a batch_event list \<Rightarrow> (nat \<times> nat) list" where
  "item_progress [] = []"
| "item_progress (Progress c n None # es) = (c, n) # item_progress es"
| "item_progress (e # es) = item_progress es"

fun rate_limit_progress :: "'a batch_event list \<Rightarrow> RateLimitHeaders list" where
  "rate_limit_progress [] = []"
| "rate_limit_progress (Progress c n (Some info) # es) = info # rate_limit_progress es"
| "rate_limit_progress (e # es) = rate_limit_progress es"

fun item_events :: "'a batch_event list \<Rightarrow> 'a batch_event list" where
  "item_events [] = []"
| "item_events (Invoked x # es) = Invoked x # item_events es"
| "item_events (Progress c n None # es) = Progress c n None # item_events es"
| "item_events (e # es) = item_events es"

fun is_Progress :: "'a batch_event \<Rightarrow> bool" where
  "is_Progress (Progress c n info) = True"
| "is_Progress e = False"

fun progress_calls :: "'a batch_event list \<Rightarrow> (nat \<times> nat \<times> RateLimitHeaders option) list" where
  "progress_calls [] = []"
| "progress_calls (Progress c n info # es) = (c, n, info) # progress_calls es"
| "progress_calls (e # es) = progress_calls es"

text \<open>
  The progress calls expected of processing the items \<open>xs\<close> one after the other when \<open>c\<close>
  are completed already: an item that fails with a rate-limit error carrying a state
  is announced with the count of the items completed before it, and every item is
  followed by a call with the count that includes it.
\<close>

fun expected_progress ::
  "('a \<Rightarrow> js_error + 'r) \<Rightarrow> nat \<Rightarrow> nat \<Rightarrow> 'a list \<Rightarrow> (nat \<times> nat \<times> RateLimitHeaders option) list" where
  "expected_progress p n c [] = []"
| "expected_progress p n c (x # xs) =
     (case p x of
        Inl (RateLimitError m (Some info)) \<Rightarrow> [(c, n, Some info)]
      | _ \<Rightarrow> [])
     @ (Suc c, n, None) # expected_progress p n (Suc c) xs"

text \<open>
  The log expected of processing the items \<open>xs\<close> one after the other when \<open>c\<close> are
  completed already: each item is followed by its progress call, if there is a callback.
\<close>

fun interleaved :: "bool \<Rightarrow> nat \<Rightarrow> nat \<Rightarrow> 'a list \<Rightarrow> 'a batch_event list" where
  "interleaved onProgress n c [] = []"
| "interleaved onProgress n c (x # xs) =
     Invoked x # (if onProgress then [Progress (Suc c) n None] else [])
       @ interleaved onProgress n (Suc c) xs"

text \<open>
  \<open>ran_items onProgress n xs st st'\<close>: from the state \<open>st\<close> of a run to \<open>st'\<close>, exactly
  the items \<open>xs\<close> were processed, in order.
\<close>

fun ran_items ::
  "bool \<Rightarrow> nat \<Rightarrow> 'a list \<Rightarrow> ('a, 'r) run_state \<Rightarrow> ('a, 'r) run_state \<Rightarrow> bool" where
  "ran_items onProgress n xs (inst, w, c) (inst', w', c') =
     (items inst' = items inst \<and> processor inst' = processor inst
      \<and> results inst' = results inst @ successes (processor inst) xs
      \<and> errors inst' = errors inst @ failures (processor inst) xs
      \<and> c' = c + length xs
      \<and> invocations (btrace w') = invocations (btrace w) @ xs
      \<and> item_progress (btrace w') =
          item_progress (btrace w)
            @ (if onProgress then map (\<lambda>k. (k, n)) [Suc c ..< Suc (c + length xs)] else [])
      \<and> item_events (btrace w') = item_events (btrace w) @ interleaved onProgress n c xs
      \<and> rate_limit_progress (btrace w') =
          rate_limit_progress (btrace w)
            @ (if onProgress then rate_limited (processor inst) xs else [])
      \<and> progress_calls (btrace w') =
          progress_calls (btrace w)
            @ (if onProgress then expected_progress (processor inst) n c xs else []))"

text \<open>The batch size a call of \<^verbatim>\<open>processAll\<close> uses.\<close>

definition batchSize_of :: "jsnum option \<Rightarrow> jsnum" where
  "batchSize_of batchSize_arg = (case batchSize_arg of None \<Rightarrow> Num 10 | Some b \<Rightarrow> b)"

definition fresh_batch_world :: "'a batch_world" where
  "fresh_batch_world = \<lparr>bticks = 0, btrace = []\<rparr>"

text \<open>
  A processor for the examples: it fails on item 2 with a rate-limit error that carries
  a state, and succeeds on every other item.
\<close>

definition limited_processor :: "nat \<Rightarrow> js_error + nat" where
  "limited_processor x =
     (if x = 2 then Inl (RateLimitError ''Rate limit exceeded'' (Some state_429))
      else Inr (10 * x))"

definition limited_instance :: "(nat, nat) RateLimitBatchProcessor" where
  "limited_instance = new_RateLimitBatchProcessor [1, 2, 3] limited_processor"

declare handleRateLimit.simps [code]

declare batch_loop.simps [code]

section \<open>Arithmetic of the number model\<close>

lemma Math_max_Num [simp]: "Math_max (Num a) (Num b) = Num (max a b)"
  by (simp add: Math_max_def max_def)

lemma Math_min_Num [simp]: "Math_min (Num a) (Num b) = Num (min a b)"
  by (simp add: Math_min_def min_def)

lemma js_sub_Num [simp]: "js_sub (Num a) (Num b) = Num (a - b)"
  by (simp add: js_sub_def)


lemma ceil_div_rat:
  "\<lceil>(rat_of_int a - rat_of_int c) / rat_of_int b\<rceil> = - (- (a - c) div b)"
  using ceiling_divide_eq_div [of "a - c" b, where ?'a = rat] by simp

lemma ceil_div_real:
  "\<lceil>(real_of_int a - real_of_int c) / real_of_int b\<rceil> = - (- (a - c) div b)"
  using ceiling_divide_eq_div [of "a - c" b, where ?'a = real] by simp

lemma fl_1: "fl 1 = 1"
  by code_simp

lemma fl_100: "fl 100 = 100"
  by code_simp


lemma Math_round_percent_29_200: "Math_round_percent (Num 29) (Num 200) = Num 14"
  by code_simp

lemma Math_floor_tenth_rounded: "Math_floor_tenth (Num 9007199254740989) = Num 900719925474099"
  by code_simp

lemma Number_of_int_rounded: "Number_of_int 9007199254740993 = Num 9007199254740992"
  by code_simp

lemma Math_round_100: "Math_round 100 = 100"
  unfolding Math_round_def by (rule floor_unique) simp_all

lemma nat_digits_0: "nat_digits 0 = ''0''"
  by (simp add: nat_digits.simps [of 0] digit_char_def)

subsection \<open>The rounding is exact on small integers\<close>

text \<open>
  \<open>bit_length\<close> and \<open>binary_exponent\<close> bracket their argument between two powers of
  two; so \<open>fl\<close> moves a number by at most half a unit of its last place, and leaves
  alone an integer below \<open>2 ^ 53\<close>. The product \<^verbatim>\<open>limit * 0.1\<close> then has the floor of the
  exact tenth for every limit up to \<open>2 ^ 52\<close>.
\<close>

lemma pow2_powi: "pow2 k = 2 powi k"
  by (simp add: pow2_def power_int_def power_one_over inverse_eq_divide)

lemma bit_length_nonneg: "0 \<le> bit_length p"
proof (induction p rule: bit_length.induct)
  case (1 n)
  then show ?case by (subst bit_length.simps) simp
qed

lemma bit_length_pos: "0 < p \<Longrightarrow> 0 < bit_length p"
  using bit_length_nonneg [of "p div 2"] by (subst bit_length.simps) simp

lemma bit_length_bounds:
  "0 < p \<Longrightarrow> 2 ^ nat (bit_length p - 1) \<le> p \<and> p < 2 ^ nat (bit_length p)"
proof (induction p rule: bit_length.induct)
  case (1 n)
  show ?case
  proof (cases "n = 1")
    case True
    then show ?thesis
      by (simp add: bit_length.simps [of 1] bit_length.simps [of 0])
  next
    case False
    with "1.prems" have half: "0 < n div 2" by simp
    with "1.IH" "1.prems" have IH: "2 ^ nat (bit_length (n div 2) - 1) \<le> n div 2"
      "n div 2 < 2 ^ nat (bit_length (n div 2))" by simp_all
    have bl: "bit_length n = 1 + bit_length (n div 2)"
      using "1.prems" by (subst bit_length.simps) simp
    have pos: "0 < bit_length (n div 2)" using half by (rule bit_length_pos)
    then have e: "nat (bit_length (n div 2)) = Suc (nat (bit_length (n div 2) - 1))" by simp
    have "(2::int) ^ nat (bit_length n - 1) = 2 * 2 ^ nat (bit_length (n div 2) - 1)"
      unfolding bl using e by simp
    also have "\<dots> \<le> 2 * (n div 2)" using IH(1) by simp
    also have "\<dots> \<le> n" by simp
    finally have lower: "2 ^ nat (bit_length n - 1) \<le> n" .
    have "n < 2 * (n div 2) + 2" by simp
    also have "\<dots> \<le> 2 * 2 ^ nat (bit_length (n div 2))" using IH(2) by simp
    also have "\<dots> = 2 ^ nat (bit_length n)"
      unfolding bl using pos by (simp add: nat_add_distrib)
    finally show ?thesis using lower by simp
  qed
qed


lemma rat_of_int_bit_length:
  assumes "0 < p"
  shows "2 powi (bit_length p - 1) \<le> rat_of_int p" and "rat_of_int p < 2 powi bit_length p"
proof -
  have pos: "0 < bit_length p" using assms by (rule bit_length_pos)
  have "rat_of_int (2 ^ nat (bit_length p - 1)) \<le> rat_of_int p"
    using bit_length_bounds [OF assms] by (simp only: of_int_le_iff)
  then show "2 powi (bit_length p - 1) \<le> rat_of_int p"
    using pos by (simp add: power_int_def)
  have "rat_of_int p < rat_of_int (2 ^ nat (bit_length p))"
    using bit_length_bounds [OF assms] by (simp only: of_int_less_iff)
  then show "rat_of_int p < 2 powi bit_length p"
    using pos by (simp add: power_int_def)
qed

lemma binary_exponent_bounds:
  assumes "0 < x"
  shows "2 powi binary_exponent x \<le> x \<and> x < 2 powi (binary_exponent x + 1)"
proof -
  obtain p q where pq: "quotient_of x = (p, q)" by (cases "quotient_of x")
  then have q: "0 < q" and x: "x = rat_of_int p / rat_of_int q"
    by (simp_all add: quotient_of_denom_pos quotient_of_div)
  with assms have p: "0 < p" by (simp add: zero_less_divide_iff)
  define d where "d = bit_length p - bit_length q"
  have "x < 2 powi bit_length p / 2 powi (bit_length q - 1)"
    unfolding x using p q rat_of_int_bit_length [OF p] rat_of_int_bit_length [OF q]
    by (intro frac_less) simp_all
  also have "\<dots> = 2 powi (d + 1)"
    by (simp add: d_def power_int_diff [symmetric] algebra_simps)
  finally have upper: "x < 2 powi (d + 1)" .
  have "2 powi (bit_length p - 1) / 2 powi bit_length q < x"
    unfolding x using p q rat_of_int_bit_length [OF p] rat_of_int_bit_length [OF q]
    by (intro frac_less2) simp_all
  moreover have "2 powi (bit_length p - 1) / (2::rat) powi bit_length q = 2 powi (d - 1)"
    by (simp add: d_def power_int_diff [symmetric] algebra_simps)
  ultimately have lower: "2 powi (d - 1) < x" by simp
  have be: "binary_exponent x = (if 2 powi d \<le> x then d else d - 1)"
    by (simp add: binary_exponent_def pq d_def pow2_powi)
  show ?thesis
  proof (cases "2 powi d \<le> x")
    case True
    with be upper show ?thesis by simp
  next
    case False
    with be lower show ?thesis by simp
  qed
qed

lemma binary_exponent_unique:
  assumes "0 < x" and "2 powi e \<le> x" and "x < 2 powi (e + 1)"
  shows "binary_exponent x = e"
proof -
  let ?b = "binary_exponent x"
  from binary_exponent_bounds [OF assms(1)]
  have b: "2 powi ?b \<le> x" "x < 2 powi (?b + 1)" by simp_all
  have "?b < e + 1"
  proof (rule ccontr)
    assume "\<not> ?b < e + 1"
    then have "(2::rat) powi (e + 1) \<le> 2 powi ?b" by (intro power_int_increasing) simp_all
    with b(1) assms(3) show False by simp
  qed
  moreover have "e < ?b + 1"
  proof (rule ccontr)
    assume "\<not> e < ?b + 1"
    then have "(2::rat) powi (?b + 1) \<le> 2 powi e" by (intro power_int_increasing) simp_all
    with b(2) assms(2) show False by simp
  qed
  ultimately show ?thesis by simp
qed

lemma round_half_even_near:
  assumes "0 \<le> f" and "f < 1 / 2"
  shows "round_half_even (of_int z + f) = z"
proof -
  have "\<lfloor>rat_of_int z + f\<rfloor> = z" using assms by (intro floor_unique) simp_all
  with assms show ?thesis by (simp add: round_half_even_def)
qed




lemma fl_int_plus_small:
  fixes k :: int and e :: nat
  assumes lo: "2 ^ e \<le> \<bar>k\<bar>" and hi: "\<bar>k\<bar> < 2 ^ Suc e" and e: "e \<le> 52"
    and t0: "0 \<le> t" and t1: "t < 1 / 2 ^ (53 - e)"
  shows "fl (rat_of_int k + sgn (rat_of_int k) * t) = rat_of_int k"
proof -
  define x where "x = rat_of_int k + sgn (rat_of_int k) * t"
  have k0: "k \<noteq> 0" using lo by auto
  have absx: "\<bar>x\<bar> = rat_of_int \<bar>k\<bar> + t"
    using k0 t0 by (cases "0 < k") (simp_all add: x_def)
  have sgnx: "sgn x = sgn (rat_of_int k)"
    using k0 t0 by (cases "0 < k") (simp_all add: x_def sgn_if add_pos_nonneg add_neg_nonpos)
  have x0: "x \<noteq> 0" using absx k0 t0 by (metis abs_zero add_nonneg_eq_0_iff of_int_0_le_iff
      abs_ge_zero of_int_eq_0_iff abs_eq_0)
  have thalf: "t < 1 / 2"
  proof -
    have "(2::rat) ^ 1 \<le> 2 ^ (53 - e)" using e by (intro power_increasing) simp_all
    then have "(2::rat) \<le> 2 ^ (53 - e)" by simp
    then have "1 / (2::rat) ^ (53 - e) \<le> 1 / 2" by (intro frac_le) simp_all
    with t1 show ?thesis by linarith
  qed
  have "rat_of_int (2 ^ e) \<le> rat_of_int \<bar>k\<bar>" using lo by (simp only: of_int_le_iff)
  then have lower: "2 powi int e \<le> \<bar>x\<bar>" using t0 by (simp add: absx)
  have "\<bar>k\<bar> + 1 \<le> 2 ^ Suc e" using hi by simp
  then have "rat_of_int (\<bar>k\<bar> + 1) \<le> rat_of_int (2 ^ Suc e)" by (simp only: of_int_le_iff)
  then have upper: "\<bar>x\<bar> < 2 powi (int e + 1)"
    using thalf by (simp add: absx power_int_add)
  have be: "binary_exponent \<bar>x\<bar> = int e"
    using x0 lower upper by (intro binary_exponent_unique) simp_all
  define u :: rat where "u = 1 / 2 ^ (52 - e)"
  have u: "pow2 (int e - 52) = u"
    using e by (simp add: pow2_def u_def nat_diff_distrib')
  have split: "(2::rat) ^ (53 - e) = 2 * 2 ^ (52 - e)"
    using e by (simp add: Suc_diff_le flip: power_Suc)
  have "t * 2 ^ (52 - e) < 1 / 2"
  proof -
    have "t * 2 ^ (52 - e) < (1 / 2 ^ (53 - e)) * 2 ^ (52 - e)"
      using t1 by (intro mult_strict_right_mono) simp_all
    also have "\<dots> = 1 / 2" by (simp add: split)
    finally show ?thesis .
  qed
  moreover have "0 \<le> t * 2 ^ (52 - e)" using t0 by simp
  moreover have "\<bar>x\<bar> / u = rat_of_int (\<bar>k\<bar> * 2 ^ (52 - e)) + t * 2 ^ (52 - e)"
    by (simp add: absx u_def algebra_simps)
  ultimately have rhe: "round_half_even (\<bar>x\<bar> / u) = \<bar>k\<bar> * 2 ^ (52 - e)"
    using round_half_even_near [of "t * 2 ^ (52 - e)" "\<bar>k\<bar> * 2 ^ (52 - e)"] by simp
  have "fl x = sgn x * rat_of_int (\<bar>k\<bar> * 2 ^ (52 - e)) * u"
    using x0 by (simp add: fl_def be u rhe Let_def)
  also have "\<dots> = sgn (rat_of_int k) * rat_of_int \<bar>k\<bar>"
    by (simp add: sgnx u_def)
  also have "\<dots> = rat_of_int k"
    by (simp add: sgn_if)
  finally show ?thesis by (simp add: x_def)
qed



lemma fl_of_int:
  assumes "\<bar>k\<bar> < 2 ^ 53"
  shows "fl (rat_of_int k) = rat_of_int k"
proof (cases "k = 0")
  case True
  then show ?thesis by (simp add: fl_def)
next
  case False
  define e where "e = nat (bit_length \<bar>k\<bar> - 1)"
  have kpos: "0 < \<bar>k\<bar>" using False by simp
  have blpos: "0 < bit_length \<bar>k\<bar>" using kpos by (rule bit_length_pos)
  have Suc_e: "Suc e = nat (bit_length \<bar>k\<bar>)" using blpos by (simp add: e_def)
  have lo: "2 ^ e \<le> \<bar>k\<bar>" using bit_length_bounds [OF kpos] by (simp add: e_def)
  have hi: "\<bar>k\<bar> < 2 ^ Suc e" unfolding Suc_e using bit_length_bounds [OF kpos] by simp
  have e52: "e \<le> 52"
  proof (rule ccontr)
    assume "\<not> e \<le> 52"
    then have "(2::int) ^ 53 \<le> 2 ^ e" by (intro power_increasing) simp_all
    with lo assms show False by simp
  qed
  have "(0::rat) < 1 / 2 ^ (53 - e)" by simp
  from fl_int_plus_small [OF lo hi e52 _ this, of ] show ?thesis by simp
qed

lemma Number_of_int_exact:
  assumes "\<bar>n\<bar> < 2 ^ 53"
  shows "Number_of_int n = Num n"
proof -
  have "rat_of_int \<bar>n\<bar> < rat_of_int (2 ^ 53)" using assms by (simp only: of_int_less_iff)
  also have "\<dots> \<le> rat_of_int (2 ^ 1024)" by (simp only: of_int_le_iff) simp
  finally have "\<not> 2 ^ 1024 \<le> \<bar>rat_of_int n\<bar>" by simp
  then show ?thesis
    using fl_of_int [OF assms] by (simp add: Number_of_int_def Let_def)
qed

lemma positive_toString_exact: "n \<le> 2 ^ 53 \<Longrightarrow> positive_toString n = nat_digits (nat n)"
  by (simp add: positive_toString_def)

lemma sublist_mid: "sublist ys (xs @ ys @ zs)"
  by (auto simp: sublist_def)

section \<open>The header parser: a missing header\<close>

text \<open>
  Claim C6. If any one of the four required headers (\<^verbatim>\<open>x-ratelimit-limit\<close>,
  \<^verbatim>\<open>x-ratelimit-remaining\<close>, \<^verbatim>\<open>x-ratelimit-reset\<close>, \<^verbatim>\<open>x-ratelimit-retry-after\<close>) is
  absent from the header map, \<open>parseRateLimitHeaders\<close> returns no state: never a
  partly filled one, and in particular no state with \<open>remaining = 0\<close> when
  \<^verbatim>\<open>x-ratelimit-remaining\<close> is the absent one.
\<close>

theorem parseRateLimitHeaders_missing_header:
  assumes "name \<in> {''x-ratelimit-limit'', ''x-ratelimit-remaining'', ''x-ratelimit-reset'',
                    ''x-ratelimit-retry-after''}"
    and "headers resp name = None"
  shows "parseRateLimitHeaders rt resp = None"
  using assms by (auto simp: parseRateLimitHeaders_def js_not_def)

theorem parseRateLimitHeaders_missing_header_witness:
  "headers response_no_remaining ''x-ratelimit-remaining'' = None
   \<and> parseRateLimitHeaders example_runtime response_no_remaining = None"
  using parseRateLimitHeaders_missing_header
          [of "''x-ratelimit-remaining''" response_no_remaining example_runtime]
  by (simp add: response_no_remaining_def)

section \<open>The optimal batch size\<close>







section \<open>The wait time\<close>

text \<open>
  Claim C4. For a state with a valid reset time \<open>t\<close>: if the reset time is in the
  past, \<open>getWaitTime\<close> returns 0; otherwise, if \<open>remaining\<close> is an integer \<open>r > 0\<close> it
  returns the ceiling of the time until reset divided by \<open>r\<close>, and if \<open>remaining\<close> is 0
  it returns the whole time until reset.
\<close>

theorem getWaitTime_cases:
  assumes "reset hdrs = Num t"
  shows "(t < now \<longrightarrow> getWaitTime now hdrs = Num 0)
       \<and> (now \<le> t \<and> remaining hdrs = Num r \<and> 0 < r \<longrightarrow>
            getWaitTime now hdrs = Num \<lceil>real_of_int (t - now) / real_of_int r\<rceil>)
       \<and> (now \<le> t \<and> remaining hdrs = Num 0 \<longrightarrow> getWaitTime now hdrs = Num (t - now))"
  using assms
  by (auto simp: getWaitTime_def js_gt_def Let_def ceil_div_rat ceil_div_real)

theorem getWaitTime_cases_witness:
  "getWaitTime 2000 \<lparr>limit = Num 60, remaining = Num 30, reset = Num 1000, retryAfter = Num 30\<rparr>
     = Num 0
   \<and> getWaitTime 0 \<lparr>limit = Num 60, remaining = Num 7, reset = Num 30000, retryAfter = Num 30\<rparr>
     = Num 4286
   \<and> getWaitTime 0 \<lparr>limit = Num 60, remaining = Num 0, reset = Num 15000, retryAfter = Num 30\<rparr>
     = Num 15000"
  using getWaitTime_cases
          [of "\<lparr>limit = Num 60, remaining = Num 30, reset = Num 1000, retryAfter = Num 30\<rparr>"
              1000 2000 30]
    getWaitTime_cases
          [of "\<lparr>limit = Num 60, remaining = Num 7, reset = Num 30000, retryAfter = Num 30\<rparr>"
              30000 0 7]
    getWaitTime_cases
          [of "\<lparr>limit = Num 60, remaining = Num 0, reset = Num 15000, retryAfter = Num 30\<rparr>"
              15000 0 0]
  by (simp add: ceil_div_real)

section \<open>The batch delay\<close>

text \<open>
  Claim C3, as stated: the delay is 0 whenever the planned operations do not exceed
  \<open>remaining\<close>. It fails for a state with \<open>remaining = 0\<close>, no planned operation and a
  reset one second ahead: \<open>0 \<le> 0\<close>, yet the delay is the 1000 ms until the reset,
  because \<open>calculateBatchDelay\<close> tests \<open>remaining \<le> 0\<close> first.
\<close>

theorem calculateBatchDelay_counterexample:
  "js_le (Num 0)
     (remaining \<lparr>limit = Num 60, remaining = Num 0, reset = Num 1000, retryAfter = Num 1\<rparr>)
   \<and> calculateBatchDelay 0
       \<lparr>limit = Num 60, remaining = Num 0, reset = Num 1000, retryAfter = Num 1\<rparr> (Num 0)
     = Num 1000
   \<and> Num 1000 \<noteq> Num 0"
  by (simp add: calculateBatchDelay_def)

text \<open>
  Claim C3, amended. For a state with a valid reset time \<open>t\<close> and an integer
  \<open>remaining = r\<close>, and \<open>n\<close> planned operations: if \<open>r \<le> 0\<close> the delay is the time
  until reset, but never less than 0, whatever \<open>n\<close> is; otherwise the delay is 0 if
  \<open>n \<le> r\<close> or if the reset time is not in the future; otherwise it is the ceiling of
  the time until reset divided by \<open>r\<close>.
\<close>

theorem calculateBatchDelay_amended:
  assumes "reset hdrs = Num t" and "remaining hdrs = Num r"
  shows "calculateBatchDelay now hdrs (Num n) =
           Num (if r \<le> 0 then max 0 (t - now)
                else if n \<le> r \<or> t \<le> now then 0
                else \<lceil>real_of_int (t - now) / real_of_int r\<rceil>)"
  using assms
  by (auto simp: calculateBatchDelay_def Let_def ceil_div_rat ceil_div_real)

theorem calculateBatchDelay_amended_witness:
  "calculateBatchDelay 0
     \<lparr>limit = Num 60, remaining = Num 7, reset = Num 30000, retryAfter = Num 30\<rparr> (Num 20)
   = Num 4286"
  using calculateBatchDelay_amended
          [of "\<lparr>limit = Num 60, remaining = Num 7, reset = Num 30000, retryAfter = Num 30\<rparr>"
              30000 7 0 20]
  by (simp add: ceil_div_real)

section \<open>A state with no request remaining\<close>

text \<open>
  Claim C7. For a state with \<open>remaining = 0\<close> and \<open>limit > 0\<close>,
  \<open>getRateLimitUsagePercent\<close> returns exactly 100 (the quotient and the product are
  exact doubles there), and the status message contains the text
  \<^verbatim>\<open>Rate limit reached\<close> and the fragment \<^verbatim>\<open><remaining>/<limit>\<close>, which reads
  \<^verbatim>\<open>0/<limit>\<close>.
\<close>

theorem remaining_zero_reached:
  assumes "remaining hdrs = Num 0" and "limit hdrs = Num l" and "0 < l"
  shows "getRateLimitUsagePercent hdrs = Num 100
       \<and> sublist ''Rate limit reached'' (getRateLimitStatus rt hdrs)
       \<and> sublist (js_toString (remaining hdrs) @ ''/'' @ js_toString (limit hdrs))
                  (getRateLimitStatus rt hdrs)"
proof -
  have "getRateLimitUsagePercent hdrs = Num 100"
    using assms by (simp add: getRateLimitUsagePercent_def fl_1 fl_100 Math_round_100)
  moreover have "getRateLimitStatus rt hdrs =
      ''Rate limit reached (0/'' @ js_toString (Num l) @ ''). Resets at ''
        @ toLocaleTimeString rt (reset hdrs)"
    using assms by (simp add: getRateLimitStatus_def)
  moreover have "sublist ''Rate limit reached''
      (''Rate limit reached (0/'' @ js_toString (Num l) @ ''). Resets at ''
         @ toLocaleTimeString rt (reset hdrs))"
    using sublist_mid [of "''Rate limit reached''" "[]"] by simp
  moreover have "sublist (''0/'' @ js_toString (Num l))
      (''Rate limit reached (0/'' @ js_toString (Num l) @ ''). Resets at ''
         @ toLocaleTimeString rt (reset hdrs))"
    using sublist_mid [of "''0/'' @ js_toString (Num l)" "''Rate limit reached (''"] by simp
  ultimately show ?thesis using assms by (simp add: positive_toString_exact nat_digits_0)
qed

theorem remaining_zero_reached_witness:
  "getRateLimitUsagePercent state_429 = Num 100
   \<and> sublist ''Rate limit reached'' (getRateLimitStatus example_runtime state_429)
   \<and> sublist ''0/60'' (getRateLimitStatus example_runtime state_429)"
  using remaining_zero_reached [of state_429 60 example_runtime]
  by (simp add: state_429_def positive_toString_exact digit_char_def nat_digits.simps [of 60]
      nat_digits.simps [of 6] nat_digits.simps [of 0])


section \<open>The header parser: values that are not numbers\<close>

lemma parse_429: "parseRateLimitHeaders example_runtime response_429 = Some state_429"
  by (simp add: parseRateLimitHeaders_def response_429_def js_not_def parseInt_def parse_digits_def
    is_js_space_def is_digit_def digit_value_def example_runtime_def state_429_def
    Number_of_int_exact)

lemma parseInt_no_leading_integer:
  assumes "no_leading_integer s"
  shows "parseInt s = NaN"
proof (cases "dropWhile is_js_space s")
  case Nil
  show ?thesis unfolding parseInt_def Nil by (simp add: parse_digits_def)
next
  case (Cons c cs)
  show ?thesis
  proof (cases "c = CHR ''-'' \<or> c = CHR ''+''")
    case True
    with assms Cons have "takeWhile is_digit cs = []"
      by (cases cs) (auto simp: no_leading_integer_def)
    with True show ?thesis
      unfolding parseInt_def Cons by (auto simp: parse_digits_def)
  next
    case False
    with assms Cons have "\<not> is_digit c"
      by (simp add: no_leading_integer_def)
    with False show ?thesis
      unfolding parseInt_def Cons by (simp add: parse_digits_def)
  qed
qed

text \<open>
  Claim C9, as stated: when all four headers are present with values that are not
  numbers, the parser returns a state whose numeric fields are \<open>NaN\<close>. It fails for
  a header map whose four values are the empty string: each header is in the map,
  \<^verbatim>\<open>parseInt\<close> of its value is \<open>NaN\<close>, and the parser returns no state, because its
  guard \<^verbatim>\<open>!limit || ...\<close> takes an empty value for a missing one. It fails as well
  for values such as \<^verbatim>\<open>12abc\<close>, which are not numbers but begin with digits:
  \<^verbatim>\<open>parseInt\<close> reads the digits, and the fields of the state are 60, 12 and 30.
\<close>

theorem parseRateLimitHeaders_empty_values_counterexample:
  "headers response_empty_values ''x-ratelimit-limit'' = Some []
   \<and> headers response_empty_values ''x-ratelimit-remaining'' = Some []
   \<and> headers response_empty_values ''x-ratelimit-reset'' = Some []
   \<and> headers response_empty_values ''x-ratelimit-retry-after'' = Some []
   \<and> parseInt [] = NaN
   \<and> parseRateLimitHeaders example_runtime response_empty_values = None
   \<and> headers response_prefixed ''x-ratelimit-remaining'' = Some ''12abc''
   \<and> parseRateLimitHeaders example_runtime response_prefixed =
       Some \<lparr>limit = Num 60, remaining = Num 12, reset = NaN, retryAfter = Num 30\<rparr>"
  by (simp add: response_empty_values_def response_prefixed_def parseRateLimitHeaders_def
      js_not_def parseInt_def parse_digits_def is_js_space_def is_digit_def digit_value_def
      example_runtime_def Number_of_int_exact)

text \<open>
  Claim C9, amended. When all four headers are present with non-empty values, and the
  three numeric ones are not numbers (no decimal digit after the white space and one
  optional sign), the parser returns a state and validates nothing: \<open>limit\<close>,
  \<open>remaining\<close> and \<open>retryAfter\<close> are \<open>NaN\<close>, and the reset date is whatever the engine
  makes of the value, an invalid date included.
\<close>

theorem parseRateLimitHeaders_not_validated:
  assumes "headers resp ''x-ratelimit-limit'' = Some l"
    and "headers resp ''x-ratelimit-remaining'' = Some r"
    and "headers resp ''x-ratelimit-reset'' = Some t"
    and "headers resp ''x-ratelimit-retry-after'' = Some a"
    and "l \<noteq> []" and "r \<noteq> []" and "t \<noteq> []" and "a \<noteq> []"
    and "no_leading_integer l" and "no_leading_integer r" and "no_leading_integer a"
  shows "parseRateLimitHeaders rt resp =
           Some \<lparr>limit = NaN, remaining = NaN, reset = Date_of_string rt t, retryAfter = NaN\<rparr>"
  using assms by (simp add: parseRateLimitHeaders_def js_not_def parseInt_no_leading_integer)

theorem parseRateLimitHeaders_not_validated_witness:
  "parseRateLimitHeaders example_runtime response_words =
     Some \<lparr>limit = NaN, remaining = NaN, reset = NaN, retryAfter = NaN\<rparr>"
  using parseRateLimitHeaders_not_validated
          [of response_words "''sixty''" "''none''" "''soon''" "''-''" example_runtime]
  by (simp add: response_words_def no_leading_integer_def is_js_space_def is_digit_def
      example_runtime_def)

section \<open>The retry loop of the handler\<close>

lemma handleRateLimit_stop:
  assumes "\<not> isRateLimitError error \<or> js_ge (Num (int attempt)) (rateLimitRetryAttempts h)"
  shows "handleRateLimit rt h retryFn error attempt w =
           Some (Inl (fst (createRateLimitError rt error w)), snd (createRateLimitError rt error w))"
  using assms by (subst handleRateLimit.simps) (auto split: prod.splits)

lemma handleRateLimit_step:
  assumes "status r = 429" and "parseRateLimitHeaders rt r = Some s"
    and "\<not> js_ge (Num (int attempt)) (rateLimitRetryAttempts h)"
    and "retryFn (calls w) = Inl (AxiosError r')"
  shows "handleRateLimit rt h retryFn (AxiosError (Some r)) attempt w =
           handleRateLimit rt h retryFn (AxiosError r') (Suc attempt)
             (w\<lparr>trace := trace w
                  @ (if onRateLimitHit h \<and> attempt = 0 then [RateLimitHit s] else [])
                  @ (if onRateLimitRetry h then [RateLimitRetry (Num (int attempt + 1)) s] else [])
                  @ [Sleep (retry_delay h s), RetryFn],
                calls := Suc (calls w)\<rparr>)"
  using assms
  by (subst handleRateLimit.simps)
     (simp add: isRateLimitError_def call_retryFn_def emit_def retry_delay_def Let_def)

text \<open>
  Claim C1. Let the handler allow 3 retries and have both observers set, and let the
  operation fail with status 429 and parseable rate-limit headers every time: the
  failure \<open>r0\<close> of the first attempt, which is handed to \<open>handleRateLimit\<close>, and every
  invocation of \<open>retryFn\<close>. Then the call sequence ends, \<open>retryFn\<close> is invoked
  exactly 3 times (4 attempts in all), \<open>onRateLimitHit\<close> is invoked once,
  \<open>onRateLimitRetry\<close> 3 times with the attempt numbers 1, 2, 3 and the state parsed from
  the failure at hand, and the call throws a \<open>RateLimitError\<close> carrying the state of
  the last failure.
\<close>

theorem handleRateLimit_always_429:
  assumes "rateLimitRetryAttempts h = Num 3" and "onRateLimitHit h" and "onRateLimitRetry h"
    and "status r0 = 429" and "parseRateLimitHeaders rt r0 = Some s0"
    and "\<And>k. retryFn k = Inl (AxiosError (Some (resp k)))"
    and "\<And>k. status (resp k) = 429"
    and "\<And>k. parseRateLimitHeaders rt (resp k) = Some (st k)"
  shows "handleRateLimit rt h retryFn (AxiosError (Some r0)) 0 w =
           Some (Inl (RateLimitError
                        (''Rate limit exceeded. Retry after ''
                           @ js_toString (retryAfter (st (calls w + 2))) @ '' seconds.'')
                        (Some (st (calls w + 2)))),
                 w\<lparr>trace := trace w @
                     [RateLimitHit s0,
                      RateLimitRetry (Num 1) s0, Sleep (retry_delay h s0), RetryFn,
                      RateLimitRetry (Num 2) (st (calls w)),
                      Sleep (retry_delay h (st (calls w))), RetryFn,
                      RateLimitRetry (Num 3) (st (calls w + 1)),
                      Sleep (retry_delay h (st (calls w + 1))), RetryFn],
                   calls := calls w + 3\<rparr>)"
proof -
  let ?w1 = "w\<lparr>trace := trace w @ [RateLimitHit s0, RateLimitRetry (Num 1) s0,
                                      Sleep (retry_delay h s0), RetryFn],
                calls := Suc (calls w)\<rparr>"
  let ?w2 = "?w1\<lparr>trace := trace ?w1 @ [RateLimitRetry (Num 2) (st (calls w)),
                                        Sleep (retry_delay h (st (calls w))), RetryFn],
                 calls := Suc (calls ?w1)\<rparr>"
  let ?w3 = "?w2\<lparr>trace := trace ?w2 @ [RateLimitRetry (Num 3) (st (calls w + 1)),
                                        Sleep (retry_delay h (st (calls w + 1))), RetryFn],
                 calls := Suc (calls ?w2)\<rparr>"
  have "handleRateLimit rt h retryFn (AxiosError (Some r0)) 0 w =
          handleRateLimit rt h retryFn (AxiosError (Some (resp (calls w)))) (Suc 0) ?w1"
    using handleRateLimit_step [of r0 rt s0 0 h retryFn w "Some (resp (calls w))"] assms
    by (simp add: js_ge_def)
  also have "\<dots> = handleRateLimit rt h retryFn (AxiosError (Some (resp (calls w + 1)))) (Suc (Suc 0)) ?w2"
    using handleRateLimit_step [of "resp (calls w)" rt "st (calls w)" "Suc 0" h retryFn ?w1
            "Some (resp (calls w + 1))"] assms
    by (simp add: js_ge_def)
  also have "\<dots> = handleRateLimit rt h retryFn (AxiosError (Some (resp (calls w + 2)))) (Suc (Suc (Suc 0))) ?w3"
    using handleRateLimit_step [of "resp (calls w + 1)" rt "st (calls w + 1)" "Suc (Suc 0)" h retryFn ?w2
            "Some (resp (calls w + 2))"] assms
    by (simp add: js_ge_def)
  also have "\<dots> = Some (Inl (fst (createRateLimitError rt (AxiosError (Some (resp (calls w + 2)))) ?w3)),
                         snd (createRateLimitError rt (AxiosError (Some (resp (calls w + 2)))) ?w3))"
    using assms by (intro handleRateLimit_stop) (simp add: js_ge_def)
  finally show ?thesis
    using assms by (simp add: createRateLimitError_def)
qed

theorem handleRateLimit_always_429_witness:
  "handleRateLimit example_runtime default_handler
     (\<lambda>k. Inl (AxiosError (Some response_429)) :: js_error + unit)
     (AxiosError (Some response_429)) 0 fresh_world =
   Some (Inl (RateLimitError ''Rate limit exceeded. Retry after 30 seconds.'' (Some state_429)),
         \<lparr>calls = 3, ticks = 0,
          trace = [RateLimitHit state_429,
                   RateLimitRetry (Num 1) state_429, Sleep (Num 31000), RetryFn,
                   RateLimitRetry (Num 2) state_429, Sleep (Num 31000), RetryFn,
                   RateLimitRetry (Num 3) state_429, Sleep (Num 31000), RetryFn]\<rparr>)"
  using handleRateLimit_always_429
          [of default_handler response_429 example_runtime state_429
              "\<lambda>k. Inl (AxiosError (Some response_429)) :: js_error + unit"
              "\<lambda>k. response_429" "\<lambda>k. state_429" fresh_world]
    parse_429
  by (simp add: default_handler_def new_RateLimitHandler_def fresh_world_def retry_delay_def
      response_429_def state_429_def positive_toString_exact digit_char_def
      nat_digits.simps [of 30] nat_digits.simps [of 3] nat_digits.simps [of 0])

text \<open>
  Claim C2 says that a failure whose status is not 429 is propagated unchanged. The
  code does not: here the first attempt failed with 429, and the retry fails with
  status 500. The guard of \<open>handleRateLimit\<close> stops at once, without another retry,
  but it throws \<open>createRateLimitError\<close> of the failure: a \<open>RateLimitError\<close> that says
  the rate limit was exceeded and carries the fallback state, in place of the
  status-500 error.
\<close>

theorem handleRateLimit_wraps_non_429:
  "handleRateLimit example_runtime default_handler
     (\<lambda>k. Inl (AxiosError (Some response_500)) :: js_error + unit)
     (AxiosError (Some response_429)) 0 fresh_world =
   Some (Inl (RateLimitError ''Rate limit exceeded. Please try again later.''
                (Some \<lparr>limit = Num 60, remaining = Num 0, reset = Num 1704110400000,
                        retryAfter = Num 60\<rparr>)),
         \<lparr>calls = 1, ticks = 1,
          trace = [RateLimitHit state_429,
                   RateLimitRetry (Num 1) state_429, Sleep (Num 31000), RetryFn]\<rparr>)"
proof -
  let ?f = "\<lambda>k. Inl (AxiosError (Some response_500)) :: js_error + unit"
  let ?w1 = "fresh_world\<lparr>trace := trace fresh_world @ [RateLimitHit state_429,
                 RateLimitRetry (Num 1) state_429, Sleep (retry_delay default_handler state_429),
                 RetryFn],
               calls := Suc (calls fresh_world)\<rparr>"
  have "handleRateLimit example_runtime default_handler ?f (AxiosError (Some response_429)) 0
          fresh_world =
        handleRateLimit example_runtime default_handler ?f (AxiosError (Some response_500)) (Suc 0) ?w1"
    using handleRateLimit_step [of response_429 example_runtime state_429 0 default_handler ?f
            fresh_world "Some response_500"] parse_429
    by (simp add: response_429_def default_handler_def new_RateLimitHandler_def js_ge_def)
  also have "\<dots> = Some (Inl (fst (createRateLimitError example_runtime (AxiosError (Some response_500)) ?w1)),
                         snd (createRateLimitError example_runtime (AxiosError (Some response_500)) ?w1))"
    by (intro handleRateLimit_stop) (simp add: isRateLimitError_def response_500_def)
  finally show ?thesis
    by (simp add: createRateLimitError_def parseRateLimitHeaders_def response_500_def js_not_def
        fresh_world_def example_runtime_def retry_delay_def default_handler_def
        new_RateLimitHandler_def state_429_def)
qed

section \<open>The batch processor\<close>

lemma invocations_append [simp]: "invocations (es @ fs) = invocations es @ invocations fs"
  by (induction es rule: invocations.induct) simp_all

lemma item_progress_append [simp]: "item_progress (es @ fs) = item_progress es @ item_progress fs"
  by (induction es rule: item_progress.induct) simp_all

lemma item_events_append [simp]: "item_events (es @ fs) = item_events es @ item_events fs"
  by (induction es rule: item_events.induct) simp_all

lemma interleaved_append:
  "interleaved op n c (xs @ ys) = interleaved op n c xs @ interleaved op n (c + length xs) ys"
  by (induction xs arbitrary: c) simp_all

lemma rate_limit_progress_append [simp]:
  "rate_limit_progress (es @ fs) = rate_limit_progress es @ rate_limit_progress fs"
  by (induction es rule: rate_limit_progress.induct) simp_all

lemma progress_calls_append [simp]:
  "progress_calls (es @ fs) = progress_calls es @ progress_calls fs"
  by (induction es rule: progress_calls.induct) simp_all

lemma expected_progress_append:
  "expected_progress p n c (xs @ ys) =
     expected_progress p n c xs @ expected_progress p n (c + length xs) ys"
  by (induction xs arbitrary: c) simp_all

lemma successes_append [simp]: "successes p (xs @ ys) = successes p xs @ successes p ys"
  by (induction xs) (simp_all split: sum.splits)

lemma failures_append [simp]: "failures p (xs @ ys) = failures p xs @ failures p ys"
  by (induction xs) (simp_all split: sum.splits)

lemma rate_limited_append [simp]: "rate_limited p (xs @ ys) = rate_limited p xs @ rate_limited p ys"
  by (induction xs) (simp_all split: sum.splits js_error.splits option.splits)

lemma btrace_waitForRateLimit:
  "invocations (btrace (waitForRateLimit rt info w)) = invocations (btrace w)
   \<and> item_progress (btrace (waitForRateLimit rt info w)) = item_progress (btrace w)
   \<and> item_events (btrace (waitForRateLimit rt info w)) = item_events (btrace w)
   \<and> rate_limit_progress (btrace (waitForRateLimit rt info w)) = rate_limit_progress (btrace w)
   \<and> progress_calls (btrace (waitForRateLimit rt info w)) = progress_calls (btrace w)"
  by (simp add: waitForRateLimit_def log_event_def Let_def)

lemma ran_items_Nil: "ran_items op n [] st st"
  by (cases st) simp

lemma ran_items_trans:
  assumes "ran_items op n xs st st'" and "ran_items op n ys st' st''"
  shows "ran_items op n (xs @ ys) st st''"
proof -
  obtain i w c i' w' c' i'' w'' c'' where
    st: "st = (i, w, c)" "st' = (i', w', c')" "st'' = (i'', w'', c'')"
    by (metis prod_cases3)
  have "map (\<lambda>k. (k, n)) [Suc c ..< Suc (c + length xs)]
          @ map (\<lambda>k. (k, n)) [Suc (c + length xs) ..< Suc (c + length xs + length ys)]
        = map (\<lambda>k. (k, n)) [Suc c ..< Suc (c + (length xs + length ys))]"
    using upt_add_eq_append [of "Suc c" "Suc (c + length xs)" "length ys"]
    by (simp flip: map_append add: add.assoc)
  with assms show ?thesis
    unfolding st by (simp add: add.assoc interleaved_append expected_progress_append)
qed

lemma ran_items_process_item:
  "ran_items op n [x] st (process_item rt op n x st)"
proof -
  obtain i w c where st: "st = (i, w, c)" by (metis prod_cases3)
  show ?thesis
  proof (cases "processor i x")
    case (Inr v)
    then show ?thesis
      unfolding st by (simp add: process_item_def log_event_def Let_def)
  next
    case (Inl e)
    show ?thesis
    proof (cases e)
      case (RateLimitError m h)
      with Inl show ?thesis
        unfolding st
        by (cases h) (simp_all add: process_item_def log_event_def Let_def btrace_waitForRateLimit)
    qed (use Inl in \<open>simp_all add: st process_item_def log_event_def Let_def\<close>)
  qed
qed

lemma ran_items_process_batch:
  "ran_items op n xs st (process_batch rt op n xs st)"
proof (induction xs arbitrary: st)
  case Nil
  show ?case by (simp add: ran_items_Nil)
next
  case (Cons x xs)
  show ?case
    using ran_items_trans [OF ran_items_process_item [of op n x st rt]
        Cons.IH [of "process_item rt op n x st"]]
    by simp
qed


lemma ran_items_pause:
  assumes "ran_items op n xs st (i1, w1, c1)"
  shows "ran_items op n xs st (i1, log_event BatchPause w1, c1)"
  using assms by (cases st) (simp add: log_event_def)

lemma js_slice_batch:
  assumes "0 \<le> k" and "k < int (length xs)" and "0 < b"
  shows "js_slice xs (Num k) (Num (k + b)) = take (nat b) (drop (nat k) xs)"
proof (cases "k + b \<le> int (length xs)")
  case True
  with assms have "nat (k + b - k) = nat b" by simp
  with True assms show ?thesis
    by (simp add: js_slice_def slice_index_def min_def)
next
  case False
  with assms have "length (drop (nat k) xs) \<le> nat b" by simp
  with False assms show ?thesis
    by (simp add: js_slice_def slice_index_def min_def)
qed

lemma batch_loop_ran:
  assumes "0 < b"
  shows "0 \<le> k \<Longrightarrow>
         \<exists>st'. batch_loop rt op n (Num b) (Num k) (inst, w, c) = Some st'
               \<and> ran_items op n (drop (nat k) (items inst)) (inst, w, c) st'"
proof (induction "nat (int (length (items inst)) - k)" arbitrary: k inst w c rule: less_induct)
  case less
  show ?case
  proof (cases "k < int (length (items inst))")
    case False
    then have "batch_loop rt op n (Num b) (Num k) (inst, w, c) = Some (inst, w, c)"
      by (subst batch_loop.simps) simp
    moreover from False have "drop (nat k) (items inst) = []" by simp
    ultimately show ?thesis by (simp add: ran_items_Nil)
  next
    case True
    define batch where "batch = take (nat b) (drop (nat k) (items inst))"
    obtain i1 w1 c1 where st1: "process_batch rt op n batch (inst, w, c) = (i1, w1, c1)"
      by (metis prod_cases3)
    have r1: "ran_items op n batch (inst, w, c) (i1, w1, c1)"
      using ran_items_process_batch [of op n batch "(inst, w, c)" rt] st1 by simp
    then have items1: "items i1 = items inst" by simp
    define w2 where
      "w2 = (if k + b < int (length (items inst)) then log_event BatchPause w1 else w1)"
    have r2: "ran_items op n batch (inst, w, c) (i1, w2, c1)"
      using r1 ran_items_pause [OF r1] by (simp add: w2_def)
    have slice: "js_slice (items inst) (Num k) (Num (k + b)) = batch"
      unfolding batch_def using less.prems True assms by (rule js_slice_batch)
    have step: "batch_loop rt op n (Num b) (Num k) (inst, w, c) =
                  batch_loop rt op n (Num b) (Num (k + b)) (i1, w2, c1)"
      using True
      by (subst batch_loop.simps) (simp add: slice st1 items1 w2_def Let_def)
    have "nat (int (length (items i1)) - (k + b)) < nat (int (length (items inst)) - k)"
      using True assms items1 by simp
    moreover have "0 \<le> k + b" using less.prems assms by simp
    ultimately obtain st' where
      loop: "batch_loop rt op n (Num b) (Num (k + b)) (i1, w2, c1) = Some st'"
      and r3: "ran_items op n (drop (nat (k + b)) (items i1)) (i1, w2, c1) st'"
      using less.hyps [of i1 "k + b" w2 c1] by blast
    have "nat (k + b) = nat b + nat k" using less.prems assms by simp
    then have "batch @ drop (nat (k + b)) (items i1) = drop (nat k) (items inst)"
      by (simp add: batch_def items1 flip: drop_drop)
    with ran_items_trans [OF r2 r3] step loop show ?thesis by simp
  qed
qed

lemma processAll_ran:
  assumes "batchSize_of bs = Num b" and "0 < b"
  shows "\<exists>inst' w' c'. processAll rt inst op bs w = Some ((results inst', errors inst'), inst', w')
           \<and> ran_items op (length (items inst)) (items inst) (inst, w, 0) (inst', w', c')"
proof -
  obtain st' where
    loop: "batch_loop rt op (length (items inst)) (Num b) (Num 0) (inst, w, 0) = Some st'"
    and ran: "ran_items op (length (items inst)) (drop (nat 0) (items inst)) (inst, w, 0) st'"
    using batch_loop_ran [OF assms(2), of 0 rt op "length (items inst)" inst w 0] by auto
  obtain inst' w' c' where st': "st' = (inst', w', c')" by (metis prod_cases3)
  have "processAll rt inst op bs w = Some ((results inst', errors inst'), inst', w')"
    using loop assms(1) by (simp add: processAll_def batchSize_of_def st')
  with ran st' show ?thesis by auto
qed


text \<open>
  The batch size matters: with a batch size of 0 and at least one item the loop pauses
  for ever and \<open>processAll\<close> never returns; with \<open>NaN\<close> it returns at once and has
  processed nothing.
\<close>

lemma batch_loop_zero_never_returns:
  assumes "batch_loop rt op n bs i st = Some st'"
  shows "\<not> (bs = Num 0 \<and> i = Num 0 \<and> items (fst st) \<noteq> [])"
proof (rule batch_loop.raw_induct
    [where P = "\<lambda>rt op n bs i st st'. \<not> (bs = Num 0 \<and> i = Num 0 \<and> items (fst st) \<noteq> [])",
     OF _ assms])
  fix loop and rt :: runtime and op n bs i and st st' :: "('a, 'b) run_state"
  assume IH: "\<And>rt op n bs i st st'. loop rt op n bs i st = Some st' \<Longrightarrow>
                \<not> (bs = Num 0 \<and> i = Num 0 \<and> items (fst st) \<noteq> [])"
    and body: "(case st of
      (inst, w, completed) \<Rightarrow>
        if js_lt i (Num (int (length (items inst))))
        then let batch = js_slice (items inst) i (js_add i bs);
                 st1 = process_batch rt op n batch st
             in Let (case st1 of
                     (inst1, w1, completed1) \<Rightarrow>
                       if js_lt (js_add i bs) (Num (int (length (items inst1))))
                       then (inst1, log_event BatchPause w1, completed1)
                       else st1)
                 (loop rt op n bs (js_add i bs))
        else Some st) = Some st'"
  show "\<not> (bs = Num 0 \<and> i = Num 0 \<and> items (fst st) \<noteq> [])"
  proof
    assume stuck: "bs = Num 0 \<and> i = Num 0 \<and> items (fst st) \<noteq> []"
    obtain inst w c where st: "st = (inst, w, c)" by (metis prod_cases3)
    from stuck st body
    have "loop rt op n (Num 0) (Num 0) (inst, log_event BatchPause w, c) = Some st'"
      by (simp add: js_slice_def slice_index_def)
    from IH [OF this] stuck st show False by simp
  qed
qed

lemma processAll_batchSize_zero:
  assumes "items inst \<noteq> []"
  shows "processAll rt inst op (Some (Num 0)) w = None"
proof (cases "batch_loop rt op (length (items inst)) (Num 0) (Num 0) (inst, w, 0)")
  case None
  then show ?thesis by (simp add: processAll_def)
next
  case (Some st')
  with batch_loop_zero_never_returns [OF Some] assms show ?thesis by simp
qed

lemma processAll_batchSize_NaN:
  assumes "items inst \<noteq> []"
  shows "processAll rt inst op (Some NaN) w = Some ((results inst, errors inst), inst, w)"
proof -
  have "batch_loop rt op (length (items inst)) NaN NaN (inst, w, 0) = Some (inst, w, 0)"
    by (subst batch_loop.simps) simp
  then have "batch_loop rt op (length (items inst)) NaN (Num 0) (inst, w, 0) = Some (inst, w, 0)"
    using assms by (subst batch_loop.simps) (simp add: js_slice_def slice_index_def)
  then show ?thesis by (simp add: processAll_def)
qed

lemma length_filter_is_Progress:
  "length (filter is_Progress es) = length (item_progress es) + length (rate_limit_progress es)"
proof (induction es)
  case Nil
  show ?case by simp
next
  case (Cons e es)
  show ?case
  proof (cases e)
    case (Progress c n info)
    with Cons show ?thesis by (cases info) simp_all
  qed (use Cons in simp_all)
qed

lemma all_succeed:
  assumes "\<forall>x \<in> set xs. \<exists>v. p x = Inr v"
  shows "length (successes p xs) = length xs \<and> failures p xs = [] \<and> rate_limited p xs = []"
  using assms by (induction xs) auto

lemma expected_progress_lower: "(k, m, i) \<in> set (expected_progress p n c xs) \<Longrightarrow> c \<le> k"
proof (induction xs arbitrary: c)
  case Nil
  then show ?case by simp
next
  case (Cons x xs)
  from Cons.prems consider "k = c" | "k = Suc c" | "(k, m, i) \<in> set (expected_progress p n (Suc c) xs)"
    by (auto split: sum.splits js_error.splits option.splits)
  then show ?case
  proof cases
    case 3
    from Cons.IH [OF this] show ?thesis by simp
  qed simp_all
qed

lemma expected_progress_sorted: "sorted (map fst (expected_progress p n c xs))"
proof (induction xs arbitrary: c)
  case Nil
  show ?case by simp
next
  case (Cons x xs)
  have later: "\<forall>e \<in> set (expected_progress p n (Suc c) xs). Suc c \<le> fst e \<and> c \<le> fst e"
  proof
    fix e assume "e \<in> set (expected_progress p n (Suc c) xs)"
    then have "(fst e, fst (snd e), snd (snd e)) \<in> set (expected_progress p n (Suc c) xs)"
      by simp
    from expected_progress_lower [OF this] show "Suc c \<le> fst e \<and> c \<le> fst e" by simp
  qed
  have tail: "sorted (map fst ((Suc c, n, None) # expected_progress p n (Suc c) xs))"
    using Cons.IH [of "Suc c"] later by simp
  show ?case
  proof (cases "\<exists>m info. p x = Inl (RateLimitError m (Some info))")
    case True
    then obtain m info where "p x = Inl (RateLimitError m (Some info))" by blast
    with tail later show ?thesis by simp
  next
    case False
    then have "(case p x of Inl (RateLimitError m (Some info)) \<Rightarrow> [(c, n, Some info)] | _ \<Rightarrow> []) = []"
      by (auto split: sum.splits js_error.splits option.splits)
    with tail show ?thesis by simp
  qed
qed

lemma expected_progress_not_limited:
  assumes "rate_limited p xs = []"
  shows "expected_progress p n c xs = map (\<lambda>k. (k, n, None)) [Suc c ..< Suc (c + length xs)]"
  using assms
proof (induction xs arbitrary: c)
  case Nil
  show ?case by simp
next
  case (Cons x xs)
  from Cons.prems have rest: "rate_limited p xs = []"
    and here: "(case p x of Inl (RateLimitError m (Some info)) \<Rightarrow> [(c, n, Some info)] | _ \<Rightarrow> []) = []"
    by (auto split: sum.splits js_error.splits option.splits)
  have "[Suc c ..< Suc (c + length (x # xs))] = Suc c # [Suc (Suc c) ..< Suc (Suc c + length xs)]"
    by (simp add: upt_rec [of "Suc c"] del: upt_Suc)
  with Cons.IH [OF rest, of "Suc c"] here show ?case
    by (simp del: upt_Suc)
qed

text \<open>
  Claim C8, as stated: for every list of items, also when some items fail, the progress
  callback fires with a strictly increasing completed count. It fails for three items
  of which the second fails with a rate-limit error that carries a state: the callback
  is also invoked to announce that error, before the count moves, so the counts it
  receives are 1, 1, 2, 3.
\<close>

theorem processAll_progress_count_counterexample:
  "map_option (progress_calls \<circ> btrace \<circ> snd \<circ> snd)
     (processAll example_runtime limited_instance True None fresh_batch_world)
   = Some [(1, 3, None), (1, 3, Some state_429), (2, 3, None), (3, 3, None)]
   \<and> \<not> sorted_wrt (<) (map fst [(1 :: nat, 3 :: nat, None), (1, 3, Some state_429),
                                (2, 3, None), (3, 3, None)])"
  by code_simp

text \<open>
  Claim C8, amended. With a progress callback and a batch size that is a positive
  integer (the default 10 included), \<open>processAll\<close> returns, and it has invoked the
  processor on every item, in order, whether or not earlier items failed. Every success
  is appended to the results and every failure is appended to the errors as an
  (item, error) pair, in the order of completion. The progress callback is invoked
  after every item, before the next one is processed, and these calls carry the
  strictly increasing completed counts 1, 2, ..., n. The only other progress calls
  announce an item's rate-limit error that carries a state: such a call comes before
  the call that follows the item and carries the count of the items completed before
  it, which the previous call carried already. So over all progress calls the count
  never decreases, and it is strictly increasing when no item fails with such an error.
  When every item succeeds there are as many new results and progress calls as items
  and no new error: for 23 items and batches of 10, 23 results, no error and 23
  progress calls.
\<close>

theorem processAll_fail_soft_amended:
  assumes "batchSize_of bs = Num b" and "0 < b"
  shows "\<exists>inst' w'.
           processAll rt inst True bs w = Some ((results inst', errors inst'), inst', w')
         \<and> invocations (btrace w') = invocations (btrace w) @ items inst
         \<and> results inst' = results inst @ successes (processor inst) (items inst)
         \<and> errors inst' = errors inst @ failures (processor inst) (items inst)
         \<and> item_progress (btrace w') =
             item_progress (btrace w)
               @ map (\<lambda>k. (k, length (items inst))) [1 ..< Suc (length (items inst))]
         \<and> item_events (btrace w') =
             item_events (btrace w) @ interleaved True (length (items inst)) 0 (items inst)
         \<and> progress_calls (btrace w') =
             progress_calls (btrace w)
               @ expected_progress (processor inst) (length (items inst)) 0 (items inst)
         \<and> sorted (map fst
             (expected_progress (processor inst) (length (items inst)) 0 (items inst)))
         \<and> (rate_limited (processor inst) (items inst) = [] \<longrightarrow>
               expected_progress (processor inst) (length (items inst)) 0 (items inst)
                 = map (\<lambda>k. (k, length (items inst), None)) [1 ..< Suc (length (items inst))]
             \<and> sorted_wrt (<) (map fst
                 (expected_progress (processor inst) (length (items inst)) 0 (items inst))))
         \<and> length (filter is_Progress (btrace w')) =
             length (filter is_Progress (btrace w)) + length (items inst)
               + length (rate_limited (processor inst) (items inst))
         \<and> ((\<forall>x \<in> set (items inst). \<exists>v. processor inst x = Inr v) \<longrightarrow>
               length (results inst') = length (results inst) + length (items inst)
             \<and> errors inst' = errors inst
             \<and> length (filter is_Progress (btrace w')) =
                 length (filter is_Progress (btrace w)) + length (items inst))"
proof -
  let ?n = "length (items inst)"
  let ?expected = "expected_progress (processor inst) ?n 0 (items inst)"
  obtain inst' w' c' where
    run: "processAll rt inst True bs w = Some ((results inst', errors inst'), inst', w')"
    and ran: "ran_items True ?n (items inst) (inst, w, 0) (inst', w', c')"
    using processAll_ran [OF assms, of rt inst True w] by blast
  from ran have facts:
    "invocations (btrace w') = invocations (btrace w) @ items inst"
    "results inst' = results inst @ successes (processor inst) (items inst)"
    "errors inst' = errors inst @ failures (processor inst) (items inst)"
    "item_progress (btrace w') =
       item_progress (btrace w) @ map (\<lambda>k. (k, ?n)) [1 ..< Suc ?n]"
    "rate_limit_progress (btrace w') =
       rate_limit_progress (btrace w) @ rate_limited (processor inst) (items inst)"
    "item_events (btrace w') = item_events (btrace w) @ interleaved True ?n 0 (items inst)"
    "progress_calls (btrace w') = progress_calls (btrace w) @ ?expected"
    by (simp_all del: upt_Suc)
  have count: "length (filter is_Progress (btrace w')) =
      length (filter is_Progress (btrace w)) + ?n
        + length (rate_limited (processor inst) (items inst))"
    unfolding length_filter_is_Progress facts by (simp del: upt_Suc)
  have nondecreasing: "sorted (map fst ?expected)"
    by (rule expected_progress_sorted)
  have increasing: "?expected = map (\<lambda>k. (k, ?n, None)) [1 ..< Suc ?n]
        \<and> sorted_wrt (<) (map fst ?expected)"
    if "rate_limited (processor inst) (items inst) = []"
  proof -
    have eq: "?expected = map (\<lambda>k. (k, ?n, None)) [1 ..< Suc ?n]"
      using expected_progress_not_limited [OF that, of ?n 0] by (simp del: upt_Suc)
    have "map fst (map (\<lambda>k. (k, ?n, None :: RateLimitHeaders option)) [1 ..< Suc ?n])
            = [1 ..< Suc ?n]"
      by (simp add: comp_def del: upt_Suc)
    then have "sorted_wrt (<) (map fst ?expected)"
      unfolding eq by (simp only: sorted_wrt_upt)
    with eq show ?thesis by simp
  qed
  have "length (results inst') = length (results inst) + ?n
        \<and> errors inst' = errors inst
        \<and> length (filter is_Progress (btrace w')) =
            length (filter is_Progress (btrace w)) + ?n"
    if "\<forall>x \<in> set (items inst). \<exists>v. processor inst x = Inr v"
    using all_succeed [OF that] facts(2,3) count by simp
  with run facts(1-4,6,7) count nondecreasing increasing show ?thesis
    by (intro exI [of _ inst'] exI [of _ w']) blast
qed

theorem processAll_fail_soft_amended_witness:
  "(\<exists>inst' w'.
      processAll example_runtime
        (new_RateLimitBatchProcessor [1 ..< 24] (\<lambda>x. Inr (2 * x) :: js_error + nat))
        True None fresh_batch_world
      = Some ((results inst', errors inst'), inst', w')
    \<and> length (results inst') = 23 \<and> errors inst' = []
    \<and> length (filter is_Progress (btrace w')) = 23
    \<and> map fst (progress_calls (btrace w')) = [1 ..< 24])
   \<and> (\<exists>inst' w'.
      processAll example_runtime
        (new_RateLimitBatchProcessor [1, 2, 3 :: nat]
           (\<lambda>x. if x = 2 then Inl (OtherError ''boom'') else Inr (10 * x)))
        True (Some (Num 2)) fresh_batch_world
      = Some ((results inst', errors inst'), inst', w')
    \<and> results inst' = [10, 30] \<and> errors inst' = [(2, OtherError ''boom'')]
    \<and> item_progress (btrace w') = [(1, 3), (2, 3), (3, 3)]
    \<and> item_events (btrace w') =
        [Invoked 1, Progress 1 3 None, Invoked 2, Progress 2 3 None,
         Invoked 3, Progress 3 3 None]
    \<and> progress_calls (btrace w') = [(1, 3, None), (2, 3, None), (3, 3, None)])
   \<and> (\<exists>inst' w'.
      processAll example_runtime limited_instance True None fresh_batch_world
      = Some ((results inst', errors inst'), inst', w')
    \<and> results inst' = [10, 30]
    \<and> errors inst' = [(2, RateLimitError ''Rate limit exceeded'' (Some state_429))]
    \<and> item_progress (btrace w') = [(1, 3), (2, 3), (3, 3)]
    \<and> progress_calls (btrace w') =
        [(1, 3, None), (1, 3, Some state_429), (2, 3, None), (3, 3, None)])"
proof (intro conjI)
  show "\<exists>inst' w'.
      processAll example_runtime
        (new_RateLimitBatchProcessor [1 ..< 24] (\<lambda>x. Inr (2 * x) :: js_error + nat))
        True None fresh_batch_world
      = Some ((results inst', errors inst'), inst', w')
    \<and> length (results inst') = 23 \<and> errors inst' = []
    \<and> length (filter is_Progress (btrace w')) = 23
    \<and> map fst (progress_calls (btrace w')) = [1 ..< 24]"
    using processAll_fail_soft_amended
            [of None 10 example_runtime
                "new_RateLimitBatchProcessor [1 ..< 24] (\<lambda>x. Inr (2 * x) :: js_error + nat)"
                fresh_batch_world]
      all_succeed [of "[1 ..< 24]" "\<lambda>x. Inr (2 * x) :: js_error + nat"]
    by (auto simp: batchSize_of_def new_RateLimitBatchProcessor_def fresh_batch_world_def
        comp_def simp del: upt_Suc)
  show "\<exists>inst' w'.
      processAll example_runtime
        (new_RateLimitBatchProcessor [1, 2, 3 :: nat]
           (\<lambda>x. if x = 2 then Inl (OtherError ''boom'') else Inr (10 * x)))
        True (Some (Num 2)) fresh_batch_world
      = Some ((results inst', errors inst'), inst', w')
    \<and> results inst' = [10, 30] \<and> errors inst' = [(2, OtherError ''boom'')]
    \<and> item_progress (btrace w') = [(1, 3), (2, 3), (3, 3)]
    \<and> item_events (btrace w') =
        [Invoked 1, Progress 1 3 None, Invoked 2, Progress 2 3 None,
         Invoked 3, Progress 3 3 None]
    \<and> progress_calls (btrace w') = [(1, 3, None), (2, 3, None), (3, 3, None)]"
    using processAll_fail_soft_amended
            [of "Some (Num 2)" 2 example_runtime
                "new_RateLimitBatchProcessor [1, 2, 3 :: nat]
                   (\<lambda>x. if x = 2 then Inl (OtherError ''boom'') else Inr (10 * x))"
                fresh_batch_world]
    by (auto simp: batchSize_of_def new_RateLimitBatchProcessor_def fresh_batch_world_def
        upt_rec)
  show "\<exists>inst' w'.
      processAll example_runtime limited_instance True None fresh_batch_world
      = Some ((results inst', errors inst'), inst', w')
    \<and> results inst' = [10, 30]
    \<and> errors inst' = [(2, RateLimitError ''Rate limit exceeded'' (Some state_429))]
    \<and> item_progress (btrace w') = [(1, 3), (2, 3), (3, 3)]
    \<and> progress_calls (btrace w') =
        [(1, 3, None), (1, 3, Some state_429), (2, 3, None), (3, 3, None)]"
    using processAll_fail_soft_amended
            [of None 10 example_runtime limited_instance fresh_batch_world]
    by (auto simp: batchSize_of_def limited_instance_def limited_processor_def
        new_RateLimitBatchProcessor_def fresh_batch_world_def upt_rec)
qed

text \<open>
  Claim C10. The accumulators are fields of the instance and \<open>processAll\<close> never
  resets them: a second call on the same instance processes all items again and returns
  the entries of the first call followed by those of the second.
\<close>

theorem processAll_twice_accumulates:
  assumes "batchSize_of bs = Num b" and "0 < b" and "batchSize_of bs' = Num b'" and "0 < b'"
  shows "\<exists>inst1 w1 inst2 w2.
           processAll rt (new_RateLimitBatchProcessor xs p) op bs w
             = Some ((results inst1, errors inst1), inst1, w1)
         \<and> processAll rt inst1 op' bs' w1 = Some ((results inst2, errors inst2), inst2, w2)
         \<and> results inst1 = successes p xs \<and> errors inst1 = failures p xs
         \<and> invocations (btrace w2) = invocations (btrace w) @ xs @ xs
         \<and> results inst2 = successes p xs @ successes p xs
         \<and> errors inst2 = failures p xs @ failures p xs"
proof -
  let ?inst = "new_RateLimitBatchProcessor xs p"
  obtain inst1 w1 c1 where
    run1: "processAll rt ?inst op bs w = Some ((results inst1, errors inst1), inst1, w1)"
    and ran1: "ran_items op (length (items ?inst)) (items ?inst) (?inst, w, 0) (inst1, w1, c1)"
    using processAll_ran [OF assms(1,2), of rt ?inst op w] by blast
  obtain inst2 w2 c2 where
    run2: "processAll rt inst1 op' bs' w1 = Some ((results inst2, errors inst2), inst2, w2)"
    and ran2: "ran_items op' (length (items inst1)) (items inst1) (inst1, w1, 0) (inst2, w2, c2)"
    using processAll_ran [OF assms(3,4), of rt inst1 op' w1] by blast
  from ran1 have "items inst1 = xs" "processor inst1 = p"
    "results inst1 = successes p xs" "errors inst1 = failures p xs"
    "invocations (btrace w1) = invocations (btrace w) @ xs"
    by (simp_all add: new_RateLimitBatchProcessor_def)
  with ran2 run1 run2 show ?thesis
    by (intro exI [of _ inst1] exI [of _ w1] exI [of _ inst2] exI [of _ w2]) simp
qed

theorem processAll_twice_accumulates_witness:
  "\<exists>inst1 w1 inst2 w2.
     processAll example_runtime
       (new_RateLimitBatchProcessor [1, 2, 3 :: nat] (\<lambda>x. Inr (10 * x) :: js_error + nat))
       False None fresh_batch_world
     = Some ((results inst1, errors inst1), inst1, w1)
   \<and> processAll example_runtime inst1 False None w1
     = Some ((results inst2, errors inst2), inst2, w2)
   \<and> results inst1 = [10, 20, 30]
   \<and> results inst2 = [10, 20, 30, 10, 20, 30]
   \<and> invocations (btrace w2) = [1, 2, 3, 1, 2, 3]"
  using processAll_twice_accumulates
          [of None 10 None 10 example_runtime "[1, 2, 3 :: nat]"
              "\<lambda>x. Inr (10 * x) :: js_error + nat" False fresh_batch_world False]
  by (auto simp: batchSize_of_def fresh_batch_world_def)

end
